theory Spec2Isabelle
  imports Main "HOL-Library.Word" "HOL-Library.Sublist"
begin

unbundle bit_operations_syntax

section \<open>Values shared by the whole development\<close>

text \<open>
  JavaScript strings are modelled as \<^typ>\<open>string\<close>: a \<^typ>\<open>char\<close> is one code unit
  in the range U+0000 .. U+00FF; the search of the conversation, whose result depends
  on how characters beyond that range are lower-cased, has its strings as lists of
  16-bit code units. Exceptions and promise rejections are values of \<open>js_error\<close>,
  carried in the left summand of a sum type.
\<close>

type_synonym byte = "8 word"

datatype js_error =
    RangeError
  | TypeError
  | SyntaxError
  | InvalidCharacterError
  | NetworkFailure
  | ApiError
  | FileReadError
  | NotAllowedError

section \<open>pcmToWav (src/app.jsx, lines 94-138)\<close>

text \<open>
  An \<open>ArrayBuffer\<close> is a list of bytes, created zero-filled. The \<open>DataView\<close> setters
  throw a \<open>RangeError\<close> when the write does not fit; they store the value reduced
  modulo the width of the field, least significant byte first (every call of the
  source passes \<open>littleEndian = true\<close>).
\<close>

definition setUint8 :: "byte list \<Rightarrow> nat \<Rightarrow> nat \<Rightarrow> js_error + byte list" where
  "setUint8 view offset v =
     (if offset + 1 \<le> length view then Inr (view[offset := of_nat v])
      else Inl RangeError)"

definition setUint16 :: "byte list \<Rightarrow> nat \<Rightarrow> nat \<Rightarrow> js_error + byte list" where
  "setUint16 view offset v =
     (if offset + 2 \<le> length view
      then Inr (view[offset := of_nat (v mod 2 ^ 16),
                     offset + 1 := of_nat (v mod 2 ^ 16 div 2 ^ 8)])
      else Inl RangeError)"

definition setUint32 :: "byte list \<Rightarrow> nat \<Rightarrow> nat \<Rightarrow> js_error + byte list" where
  "setUint32 view offset v =
     (if offset + 4 \<le> length view
      then Inr (view[offset := of_nat (v mod 2 ^ 32),
                     offset + 1 := of_nat (v mod 2 ^ 32 div 2 ^ 8),
                     offset + 2 := of_nat (v mod 2 ^ 32 div 2 ^ 16),
                     offset + 3 := of_nat (v mod 2 ^ 32 div 2 ^ 24)])
      else Inl RangeError)"

text \<open>Sequencing of steps that may throw: the first exception ends the function.\<close>

definition and_then :: "'e + 'a \<Rightarrow> ('a \<Rightarrow> 'e + 'b) \<Rightarrow> 'e + 'b" where
  "and_then r f = (case r of Inl e \<Rightarrow> Inl e | Inr x \<Rightarrow> f x)"

text \<open>The inner helper \<open>writeString\<close>: one \<open>setUint8\<close> per character code.\<close>

fun writeString :: "byte list \<Rightarrow> nat \<Rightarrow> string \<Rightarrow> js_error + byte list" where
  "writeString view offset [] = Inr view"
| "writeString view offset (c # cs) =
     (case setUint8 view offset (of_char c) of
        Inl e \<Rightarrow> Inl e
      | Inr view' \<Rightarrow> writeString view' (Suc offset) cs)"

text \<open>
  \<open>pcmView[i] = pcmData[i]\<close> on an \<open>Int16Array\<close> laid over the buffer from byte 44:
  element \<open>i\<close> occupies the bytes \<open>44 + 2 i\<close> and \<open>44 + 2 i + 1\<close>, low byte first (typed
  arrays use the byte order of the platform, little-endian on every platform the
  program runs on). A write past the end of a typed array is ignored.
\<close>

definition int16_store :: "byte list \<Rightarrow> nat \<Rightarrow> nat \<Rightarrow> 16 word \<Rightarrow> byte list" where
  "int16_store buffer byteOffset i x =
     (if byteOffset + 2 * i + 2 \<le> length buffer
      then buffer[byteOffset + 2 * i := ucast x,
                  byteOffset + 2 * i + 1 := ucast (drop_bit 8 x)]
      else buffer)"

fun copy_samples :: "byte list \<Rightarrow> nat \<Rightarrow> 16 word list \<Rightarrow> byte list" where
  "copy_samples buffer i [] = buffer"
| "copy_samples buffer i (x # xs) = copy_samples (int16_store buffer 44 i x) (Suc i) xs"

text \<open>
  \<open>pcmData\<close> is an \<open>Int16Array\<close>, so \<open>pcmData.byteLength\<close> is twice its length.
  Constructing an \<open>Int16Array\<close> over a buffer whose byte length is odd throws.
  The result is the content of the \<open>Blob\<close>.
\<close>

definition pcmToWav :: "16 word list \<Rightarrow> nat \<Rightarrow> js_error + byte list" where
  "pcmToWav pcmData sampleRate =
     (let dataLength = 2 * length pcmData;
          buffer = replicate (44 + dataLength) (0 :: byte)
      in and_then (writeString buffer 0 ''RIFF'') (\<lambda>view.
         and_then (setUint32 view 4 (36 + dataLength)) (\<lambda>view.
         and_then (writeString view 8 ''WAVE'') (\<lambda>view.
         and_then (writeString view 12 ''fmt '') (\<lambda>view.
         and_then (setUint32 view 16 16) (\<lambda>view.
         and_then (setUint16 view 20 1) (\<lambda>view.
         and_then (setUint16 view 22 1) (\<lambda>view.
         and_then (setUint32 view 24 sampleRate) (\<lambda>view.
         and_then (setUint32 view 28 (sampleRate * 2)) (\<lambda>view.
         and_then (setUint16 view 32 2) (\<lambda>view.
         and_then (setUint16 view 34 16) (\<lambda>view.
         and_then (writeString view 36 ''data'') (\<lambda>view.
         and_then (setUint32 view 40 dataLength) (\<lambda>view.
           if length view mod 2 \<noteq> 0 then Inl RangeError
           else Inr (copy_samples view 0 pcmData)))))))))))))))"

text \<open>Reading a buffer back, independently of the writers above.\<close>

definition char_codes :: "string \<Rightarrow> byte list" where
  "char_codes s = map (\<lambda>c. of_nat (of_char c)) s"

definition bytes_at :: "byte list \<Rightarrow> nat \<Rightarrow> nat \<Rightarrow> byte list" where
  "bytes_at buffer offset n = take n (drop offset buffer)"

fun le_value :: "byte list \<Rightarrow> nat" where
  "le_value [] = 0"
| "le_value (b # bs) = unat b + 256 * le_value bs"

definition uint32_at :: "byte list \<Rightarrow> nat \<Rightarrow> nat" where
  "uint32_at buffer offset = le_value (bytes_at buffer offset 4)"

definition uint16_at :: "byte list \<Rightarrow> nat \<Rightarrow> nat" where
  "uint16_at buffer offset = le_value (bytes_at buffer offset 2)"

fun int16s_le :: "byte list \<Rightarrow> 16 word list" where
  "int16s_le (lo # hi # rest) = word_cat hi lo # int16s_le rest"
| "int16s_le _ = []"


section \<open>String operations of the host language\<close>

text \<open>
  \<open>String.prototype.trim\<close> removes the white space of both ends; within U+0000 ..
  U+00FF that is TAB, LF, VT, FF, CR, SPACE and NBSP. \<open>toLowerCase\<close> maps A-Z and the
  Latin-1 capitals (U+00C0 .. U+00DE without the multiplication sign) 32 places up.
\<close>

definition is_whitespace :: "char \<Rightarrow> bool" where
  "is_whitespace c = (of_char c \<in> set [9, 10, 11, 12, 13, 32, 160 :: nat])"

definition trim :: "string \<Rightarrow> string" where
  "trim s = rev (dropWhile is_whitespace (rev (dropWhile is_whitespace s)))"

definition lower_char :: "char \<Rightarrow> char" where
  "lower_char c =
     (let n = of_char c :: nat
      in if (65 \<le> n \<and> n \<le> 90) \<or> (192 \<le> n \<and> n \<le> 222 \<and> n \<noteq> 215)
         then char_of (n + 32) else c)"

definition toLowerCase :: "string \<Rightarrow> string" where
  "toLowerCase s = map lower_char s"

definition startsWith :: "'a list \<Rightarrow> 'a list \<Rightarrow> bool" where
  "startsWith s p = (take (length p) s = p)"


text \<open>\<open>Array.prototype.join\<close>.\<close>

fun join :: "string \<Rightarrow> string list \<Rightarrow> string" where
  "join sep [] = []"
| "join sep [x] = x"
| "join sep (x # y # ys) = x @ sep @ join sep (y # ys)"

definition newline :: char where
  "newline = CHR 0x0A"

definition dquote :: char where
  "dquote = CHR 0x22"

section \<open>The conversation and the observable effects\<close>

text \<open>
  A message of \<open>chatHistory\<close>: \<open>{ role, text, imageUrl }\<close>; an absent \<open>imageUrl\<close> is
  \<open>None\<close>. The state \<open>uploadedImage\<close> is \<open>{ file, dataUrl }\<close> or \<open>null\<close>; of the file,
  its MIME type and what \<open>fileToBase64\<close> yields are kept (\<open>None\<close> when the
  \<open>FileReader\<close> fails, which rejects the promise).
\<close>

record turn =
  role :: string
  msg_text :: string
  imageUrl :: "string option"

record upload =
  file_type :: string
  file_base64 :: "string option"
  dataUrl :: string

text \<open>
  The payload of a capability call. The conversation request carries the user's
  message; the fixed persona preamble put before it is left out.
\<close>

datatype request =
    AnalyzeImage string string string
  | GenerateImage string
  | Converse string
  | Summarize string
  | Synthesize string

text \<open>
  Everything a handler does that can be seen from outside, in the order in which it
  happens: state setters, network calls, timers, log lines, calls of the speech
  function and the playback of a finished container.
\<close>

datatype event =
    SuspendAudio
  | SetChatHistory turn
  | SetInputValue string
  | SetIsLoading bool
  | SetUploadedImage
  | ReadFile
  | Fetch request
  | ConsoleError string
  | Wait nat
  | Speak string
  | Alert string
  | Play "byte list"

text \<open>
  What one \<open>fetch\<close> gives: the promise rejects, or it resolves with a response whose
  \<open>ok\<close> flag is given and whose body parses as JSON (\<open>Some\<close>) or does not (\<open>None\<close>,
  \<open>response.json()\<close> rejects). Of a parsed result, the fields the handlers read are
  kept: the text of the first part of the first candidate, and the list of
  predictions, each \<open>null\<close> or an object with an optional \<open>bytesBase64Encoded\<close>.
\<close>

datatype 'b fetch_result = Rejected | Resolved bool "'b option"

datatype prediction = PredNull | Pred "string option"

datatype api_result = JsonNull | JsonObject "string option" "prediction list option"

text \<open>The network: the outcome of the next call, of the one after it, and so on.\<close>

type_synonym network = "nat \<Rightarrow> api_result fetch_result"

datatype capability = Analyze | Generate | Conversation | Summarization

text \<open>\<open>result?.candidates?.[0]?.content?.parts?.[0]?.text\<close>\<close>

fun result_text :: "api_result \<Rightarrow> string option" where
  "result_text JsonNull = None"
| "result_text (JsonObject t ps) = t"

text \<open>Truthiness of an optional string: \<open>undefined\<close> and the empty string are falsy.\<close>

fun truthy :: "string option \<Rightarrow> bool" where
  "truthy None = False"
| "truthy (Some s) = (s \<noteq> [])"

definition vision_turn :: "string \<Rightarrow> turn" where
  "vision_turn t = \<lparr>role = ''vision'', msg_text = t, imageUrl = None\<rparr>"

section \<open>The four try blocks (one network attempt each)\<close>

text \<open>
  Each function is the body of one \<open>try\<close> block after the \<open>fetch\<close> call: \<open>Inl\<close> when it
  throws (control goes to \<open>catch\<close>), \<open>Inr\<close> with the effects performed when it reaches
  \<open>break\<close>.
\<close>

text \<open>Image analysis, lines 367-387.\<close>

definition analyze_attempt :: "api_result fetch_result \<Rightarrow> js_error + event list" where
  "analyze_attempt r =
     (case r of
        Rejected \<Rightarrow> Inl NetworkFailure
      | Resolved ok parsed \<Rightarrow>
          (case parsed of
             None \<Rightarrow> Inl SyntaxError
           | Some result \<Rightarrow>
               (if truthy (result_text result)
                then Inr [SetChatHistory (vision_turn (the (result_text result))),
                          Speak (the (result_text result))]
                else Inr [SetChatHistory (vision_turn
                            ''Sorry, I couldn't analyze the image. The API returned an unexpected format.''),
                          Speak ''Sorry, I couldn't analyze the image. The API returned an unexpected format.''])))"

text \<open>
  Image generation, lines 410-432. \<open>result.predictions\<close> on a \<open>null\<close> result and
  \<open>result.predictions[0].bytesBase64Encoded\<close> on a \<open>null\<close> prediction throw.
\<close>

definition generate_fallback :: "event list" where
  "generate_fallback =
     [SetChatHistory (vision_turn ''I'm sorry, I encountered an issue generating the image.''),
      Speak ''I'm sorry, I encountered an issue generating the image.'']"

fun generate_parse :: "api_result \<Rightarrow> js_error + event list" where
  "generate_parse JsonNull = Inl TypeError"
| "generate_parse (JsonObject t None) = Inr generate_fallback"
| "generate_parse (JsonObject t (Some [])) = Inr generate_fallback"
| "generate_parse (JsonObject t (Some (PredNull # ps))) = Inl TypeError"
| "generate_parse (JsonObject t (Some (Pred b # ps))) =
     (if truthy b
      then Inr [SetChatHistory \<lparr>role = ''vision'', msg_text = ''Image generated successfully.'',
                                 imageUrl = Some (''data:image/png;base64,'' @ the b)\<rparr>,
                Speak ''Image generated successfully.'']
      else Inr generate_fallback)"

definition generate_attempt :: "api_result fetch_result \<Rightarrow> js_error + event list" where
  "generate_attempt r =
     (case r of
        Rejected \<Rightarrow> Inl NetworkFailure
      | Resolved ok parsed \<Rightarrow>
          (case parsed of
             None \<Rightarrow> Inl SyntaxError
           | Some result \<Rightarrow> generate_parse result))"

text \<open>General conversation, lines 474-497: \<open>if (!response.ok) throw\<close> comes first.\<close>

definition converse_attempt :: "api_result fetch_result \<Rightarrow> js_error + event list" where
  "converse_attempt r =
     (case r of
        Rejected \<Rightarrow> Inl NetworkFailure
      | Resolved ok parsed \<Rightarrow>
          (if \<not> ok then Inl ApiError
           else (case parsed of
             None \<Rightarrow> Inl SyntaxError
           | Some result \<Rightarrow>
               (if truthy (result_text result)
                then Inr [SetChatHistory (vision_turn (the (result_text result))),
                          Speak (the (result_text result))]
                else Inr [SetChatHistory (vision_turn
                            ''Sorry, I couldn't generate a response. The API returned an unexpected format.''),
                          Speak ''Sorry, I couldn't generate a response. The API returned an unexpected format.'']))))"

text \<open>Summarization, lines 284-307: the same check of \<open>response.ok\<close>.\<close>

definition summarize_attempt :: "api_result fetch_result \<Rightarrow> js_error + event list" where
  "summarize_attempt r =
     (case r of
        Rejected \<Rightarrow> Inl NetworkFailure
      | Resolved ok parsed \<Rightarrow>
          (if \<not> ok then Inl ApiError
           else (case parsed of
             None \<Rightarrow> Inl SyntaxError
           | Some result \<Rightarrow>
               (if truthy (result_text result)
                then Inr [SetChatHistory (vision_turn
                            (''Here is a summary of our conversation:'' @ [newline, newline]
                               @ the (result_text result))),
                          Speak ''Here is a summary of our conversation.'']
                else Inr [SetChatHistory (vision_turn ''Sorry, I couldn't summarize the conversation.''),
                          Speak ''Sorry, I couldn't summarize the conversation.'']))))"

fun attempt :: "capability \<Rightarrow> api_result fetch_result \<Rightarrow> js_error + event list" where
  "attempt Analyze r = analyze_attempt r"
| "attempt Generate r = generate_attempt r"
| "attempt Conversation r = converse_attempt r"
| "attempt Summarization r = summarize_attempt r"

text \<open>The line logged by each \<open>catch\<close> block and the Turn appended when the retries are used up.\<close>

fun log_message :: "capability \<Rightarrow> string" where
  "log_message Analyze = ''Image analysis API call failed:''"
| "log_message Generate = ''Image API call failed:''"
| "log_message Conversation = ''API call failed:''"
| "log_message Summarization = ''Summarization API call failed:''"

fun exhausted_message :: "capability \<Rightarrow> string" where
  "exhausted_message Analyze =
     ''I am unable to analyze the image at this time. Please try again later.''"
| "exhausted_message Generate =
     ''I am unable to generate the image at this time. Please try again later.''"
| "exhausted_message Conversation =
     ''I'm sorry, I am currently unable to process your request. Please try again later.''"
| "exhausted_message Summarization =
     ''I'm sorry, I am currently unable to summarize the conversation. Please try again later.''"

section \<open>The retry loop\<close>

text \<open>
  The four \<open>while (retryCount < maxRetries)\<close> loops have one shape; they differ in the
  try block, the logged line and the final Turn. One iteration: the \<open>fetch\<close>, then
  either the try block reaches \<open>break\<close>, or the \<open>catch\<close> block counts the failure and
  waits \<open>baseDelay * 2 ^ retryCount\<close> ms (with the count already increased) or, out of
  retries, appends and speaks the final Turn. The \<open>finally\<close> block runs in every
  iteration, after the \<open>catch\<close> block and before the loop is left by \<open>break\<close>.
\<close>

definition maxRetries :: nat where
  "maxRetries = 3"

definition baseDelay :: nat where
  "baseDelay = 1000"

function retry_loop :: "capability \<Rightarrow> request \<Rightarrow> network \<Rightarrow> nat \<Rightarrow> event list" where
  "retry_loop cap req net retryCount =
     (if retryCount < maxRetries
      then Fetch req #
        (case attempt cap (net 0) of
           Inr effects \<Rightarrow> effects @ [SetIsLoading False]
         | Inl error \<Rightarrow>
             ConsoleError (log_message cap) #
             (if retryCount + 1 < maxRetries
              then [Wait (baseDelay * 2 ^ (retryCount + 1))]
              else [SetChatHistory (vision_turn (exhausted_message cap)),
                    Speak (exhausted_message cap)])
             @ [SetIsLoading False]
             @ retry_loop cap req (\<lambda>i. net (Suc i)) (retryCount + 1))
      else [])"
  by pat_completeness auto
termination
  by (relation "measure (\<lambda>(cap, req, net, retryCount). maxRetries - retryCount)") auto

section \<open>handleSummarizeChat (lines 265-323)\<close>

definition summary_prompt :: "turn list \<Rightarrow> string" where
  "summary_prompt chatHistory =
     ''Please provide a concise summary of the following conversation:'' @ [newline, newline]
     @ join [newline]
         (map (\<lambda>msg. (if role msg = ''user'' then ''User'' else ''VISION'') @ '': '' @ msg_text msg)
              chatHistory)
     @ [newline, newline] @ ''Summary:''"

text \<open>
  The result of a handler: the effects in order, and the rejection of the promise it
  returns, if any.
\<close>

record run =
  events :: "event list"
  unhandled :: "js_error option"

definition handleSummarizeChat :: "turn list \<Rightarrow> network \<Rightarrow> run" where
  "handleSummarizeChat chatHistory net =
     (if length chatHistory = 0
      then \<lparr>events = [Alert ''No messages to summarize!''], unhandled = None\<rparr>
      else \<lparr>events = SetIsLoading True #
                       retry_loop Summarization (Summarize (summary_prompt chatHistory)) net 0,
            unhandled = None\<rparr>)"

section \<open>sendMessage (lines 326-514)\<close>

definition imagePromptPrefix :: string where
  "imagePromptPrefix = ''generate an image of''"

text \<open>
  \<open>await fileToBase64(...)\<close> stands outside every \<open>try\<close>: when the reader fails, the
  promise returned by \<open>sendMessage\<close> rejects and nothing after that line runs.
\<close>

definition sendMessage :: "string \<Rightarrow> upload option \<Rightarrow> network \<Rightarrow> run" where
  "sendMessage message uploadedImage net =
     (if trim message = [] \<and> uploadedImage = None
      then \<lparr>events = [], unhandled = None\<rparr>
      else
        let newUserMessage = \<lparr>role = ''user'', msg_text = message,
                               imageUrl = map_option dataUrl uploadedImage\<rparr>;
            start = [SuspendAudio, SetChatHistory newUserMessage, SetInputValue [],
                     SetIsLoading True]
        in case uploadedImage of
             Some img \<Rightarrow>
               (case file_base64 img of
                  None \<Rightarrow>
                    \<lparr>events = start @
                       [SetChatHistory (vision_turn ''Analyzing the image provided...''), ReadFile],
                     unhandled = Some FileReadError\<rparr>
                | Some base64Data \<Rightarrow>
                    \<lparr>events = start @
                       [SetChatHistory (vision_turn ''Analyzing the image provided...''), ReadFile,
                        SetUploadedImage] @
                       retry_loop Analyze
                         (AnalyzeImage
                            (if trim message \<noteq> [] then trim message else ''What is in this image?'')
                            (file_type img) base64Data)
                         net 0,
                     unhandled = None\<rparr>)
           | None \<Rightarrow>
               if startsWith (toLowerCase message) imagePromptPrefix
               then
                 let imagePrompt = trim (drop (length imagePromptPrefix) message)
                 in \<lparr>events = start @
                       [SetChatHistory (vision_turn
                          (''Generating an image of: '' @ [dquote] @ imagePrompt @ [dquote] @ ''...''))] @
                       retry_loop Generate (GenerateImage imagePrompt) net 0,
                     unhandled = None\<rparr>
               else
                 \<lparr>events = start @ retry_loop Conversation (Converse message) net 0,
                  unhandled = None\<rparr>)"

section \<open>fetchAndPlayGeminiTTS (lines 207-246)\<close>

text \<open>
  Of the parsed speech response the function reads \<open>inlineData.data\<close> and
  \<open>inlineData.mimeType\<close> of the first part of the first candidate, each possibly
  absent.
\<close>

datatype tts_result = TtsResult "string option" "string option"

definition is_digit :: "char \<Rightarrow> bool" where
  "is_digit c = (48 \<le> (of_char c :: nat) \<and> (of_char c :: nat) \<le> 57)"

text \<open>
  \<open>mimeType.match(/rate=(\d+)/)\<close>: the leftmost position where \<open>rate=\<close> is followed by
  a digit; the group is the longest run of digits there. \<open>None\<close> is the \<open>null\<close> of a
  failed match.
\<close>

fun match_rate :: "string \<Rightarrow> string option" where
  "match_rate [] = None"
| "match_rate (c # cs) =
     (if startsWith (c # cs) ''rate='' \<and> takeWhile is_digit (drop 5 (c # cs)) \<noteq> []
      then Some (takeWhile is_digit (drop 5 (c # cs)))
      else match_rate cs)"

text \<open>
  \<open>parseInt(digits, 10)\<close> on a run of decimal digits yields a double. Up to \<open>2 ^ 53\<close>
  that is the number written. Above, the engine rounds, and may ignore the digits
  after the twentieth; beyond the range of the doubles the result is \<open>Infinity\<close>, which
  the two 32-bit rate fields of the container store as 0, as they store the rate 0.
  What the engine makes of a number above \<open>2 ^ 53\<close> is the parameter \<open>to_double\<close>.
\<close>

definition parseInt :: "(nat \<Rightarrow> nat) \<Rightarrow> string \<Rightarrow> nat" where
  "parseInt to_double ds =
     (let n = foldl (\<lambda>n c. 10 * n + (of_char c - 48)) 0 ds
      in if n \<le> 2 ^ 53 then n else to_double n)"

text \<open>
  \<open>base64ToArrayBuffer\<close> (lines 84-92). \<open>window.atob\<close> is the browser's: it is a
  parameter, giving the binary string or throwing on input that is not base64.
\<close>

definition base64ToArrayBuffer :: "(string \<Rightarrow> js_error + string) \<Rightarrow> string \<Rightarrow> js_error + byte list" where
  "base64ToArrayBuffer atob base64 =
     (case atob base64 of
        Inl e \<Rightarrow> Inl e
      | Inr binaryString \<Rightarrow> Inr (char_codes binaryString))"

text \<open>\<open>new Int16Array(pcmData)\<close> over a whole buffer: a \<open>RangeError\<close> when its length is odd.\<close>

definition new_Int16Array :: "byte list \<Rightarrow> js_error + 16 word list" where
  "new_Int16Array buffer =
     (if length buffer mod 2 \<noteq> 0 then Inl RangeError else Inr (int16s_le buffer))"

text \<open>
  The body of the \<open>try\<close> block, after the \<open>fetch\<close>: \<open>Inl\<close> when it throws, else the
  effects performed and what becomes of the promise that \<open>audio.play()\<close> returns. That
  promise is neither awaited nor given a handler. The player is the browser's: \<open>play\<close>
  is a parameter, \<open>None\<close> when playback of the container starts, \<open>Some\<close> when the promise
  is rejected (playback not allowed, container not playable).
\<close>

definition tts_try ::
    "(string \<Rightarrow> js_error + string) \<Rightarrow> (nat \<Rightarrow> nat) \<Rightarrow> (byte list \<Rightarrow> js_error option)
      \<Rightarrow> tts_result fetch_result \<Rightarrow> js_error + event list \<times> js_error option" where
  "tts_try atob to_double play r =
     (case r of
        Rejected \<Rightarrow> Inl NetworkFailure
      | Resolved ok parsed \<Rightarrow>
          (case parsed of
             None \<Rightarrow> Inl SyntaxError
           | Some (TtsResult audioData mimeType) \<Rightarrow>
               if truthy audioData \<and> truthy mimeType \<and> startsWith (the mimeType) ''audio/''
               then
                 (case match_rate (the mimeType) of
                    None \<Rightarrow> Inl TypeError
                  | Some digits \<Rightarrow>
                      and_then (base64ToArrayBuffer atob (the audioData)) (\<lambda>pcmData.
                      and_then (new_Int16Array pcmData) (\<lambda>pcm16.
                      and_then (pcmToWav pcm16 (parseInt to_double digits)) (\<lambda>wavBlob.
                        Inr ([Play wavBlob], play wavBlob)))))
               else Inr ([ConsoleError ''Gemini TTS API response missing audio data.''], None)))"

text \<open>
  The result of the speech function: its effects, the rejection of its own promise
  (\<open>unhandled\<close>, as for the other handlers), and in \<open>dropped\<close> the rejection of the promise
  of \<open>audio.play()\<close>. The latter happens after the \<open>try\<close> block has been left, so the
  \<open>catch\<close> block does not see it: it is reported by the page as an unhandled rejection
  and no line is logged by this function.
\<close>

record speech_run = run +
  dropped :: "js_error option"

definition fetchAndPlayGeminiTTS ::
    "(string \<Rightarrow> js_error + string) \<Rightarrow> (nat \<Rightarrow> nat) \<Rightarrow> (byte list \<Rightarrow> js_error option)
      \<Rightarrow> string \<Rightarrow> tts_result fetch_result \<Rightarrow> speech_run" where
  "fetchAndPlayGeminiTTS atob to_double play text_arg r =
     (case tts_try atob to_double play r of
        Inr (effects, playing) \<Rightarrow>
          \<lparr>events = Fetch (Synthesize text_arg) # effects, unhandled = None, dropped = playing\<rparr>
      | Inl error \<Rightarrow>
          \<lparr>events = [Fetch (Synthesize text_arg), ConsoleError ''Error calling Gemini TTS API:''],
           unhandled = None, dropped = None\<rparr>)"

section \<open>getFilteredChatHistory (lines 521-529)\<close>












section \<open>Reading a trace\<close>

fun appended :: "event list \<Rightarrow> turn list" where
  "appended [] = []"
| "appended (SetChatHistory t # es) = t # appended es"
| "appended (e # es) = appended es"

fun is_fetch :: "event \<Rightarrow> bool" where
  "is_fetch (Fetch q) = True"
| "is_fetch e = False"

fun is_speak :: "event \<Rightarrow> bool" where
  "is_speak (Speak t) = True"
| "is_speak e = False"

fun waits :: "event list \<Rightarrow> nat list" where
  "waits [] = []"
| "waits (Wait n # es) = n # waits es"
| "waits (e # es) = waits es"

text \<open>What follows the last Turn appended in a trace: the Turn and the next event.\<close>

fun last_reply :: "event list \<Rightarrow> (turn \<times> event option) option" where
  "last_reply [] = None"
| "last_reply (SetChatHistory t # es) =
     (case last_reply es of
        Some r \<Rightarrow> Some r
      | None \<Rightarrow> Some (t, case es of [] \<Rightarrow> None | e # es' \<Rightarrow> Some e))"
| "last_reply (e # es) = last_reply es"

text \<open>The last Turn appended is spoken at once, with its own text.\<close>

definition reply_spoken :: "event list \<Rightarrow> bool" where
  "reply_spoken es =
     (case last_reply es of
        Some (t, Some (Speak spoken)) \<Rightarrow> spoken = msg_text t
      | _ \<Rightarrow> False)"


section \<open>The audio container\<close>

lemma hdr44: "replicate (44 + d) (0::byte) = 0#0#0#0#0#0#0#0#0#0#0#0#0#0#0#0#0#0#0#0#0#0#0#0#0#0#0#0#0#0#0#0#0#0#0#0#0#0#0#0#0#0#0#0# replicate d 0"
  by (simp add: numeral_eq_Suc)

lemma list_update_Cons_numeral:
  "(x # xs)[numeral k := v] = x # xs[pred_numeral k := v]"
  by (simp add: numeral_eq_Suc)

lemma copy_samples_append:
  "length pre = 44 + 2 * i \<Longrightarrow>
   copy_samples (pre @ replicate (2 * length xs) 0) i xs =
   pre @ concat (map (\<lambda>x. [ucast x, ucast (drop_bit 8 x)]) xs)"
proof (induction xs arbitrary: pre i)
  case Nil
  then show ?case by simp
next
  case (Cons x xs)
  have "int16_store (pre @ replicate (2 * length (x # xs)) 0) 44 i x =
        (pre @ [ucast x, ucast (drop_bit 8 x)]) @ replicate (2 * length xs) 0"
    using Cons.prems by (simp add: int16_store_def list_update_append)
  moreover have "length (pre @ [ucast x, ucast (drop_bit 8 x)]) = 44 + 2 * Suc i"
    using Cons.prems by simp
  ultimately show ?case
    using Cons.IH [of "pre @ [ucast x, ucast (drop_bit 8 x)]" "Suc i"] by simp
qed

lemma int16s_le_concat:
  "int16s_le (concat (map (\<lambda>x. [ucast x, ucast (drop_bit 8 x)]) xs)) = xs"
proof (induction xs)
  case Nil show ?case by simp
next
  case (Cons x xs)
  have "word_cat (ucast (drop_bit 8 x) :: byte) (ucast x :: byte) = x"
    by (rule bit_word_eqI) (auto simp add: bit_word_cat_iff bit_ucast_iff bit_drop_bit_eq not_less dest: bit_imp_le_length)
  with Cons show ?case by simp
qed

lemma pcmToWav_layout:
  "pcmToWav s r = Inr (
     [82, 73, 70, 70] @
     [of_nat ((36 + 2 * length s) mod 2 ^ 32), of_nat ((36 + 2 * length s) mod 2 ^ 32 div 2 ^ 8),
      of_nat ((36 + 2 * length s) mod 2 ^ 32 div 2 ^ 16), of_nat ((36 + 2 * length s) mod 2 ^ 32 div 2 ^ 24)] @
     [87, 65, 86, 69] @ [102, 109, 116, 32] @ [16, 0, 0, 0] @ [1, 0] @ [1, 0] @
     [of_nat (r mod 2 ^ 32), of_nat (r mod 2 ^ 32 div 2 ^ 8),
      of_nat (r mod 2 ^ 32 div 2 ^ 16), of_nat (r mod 2 ^ 32 div 2 ^ 24)] @
     [of_nat (r * 2 mod 2 ^ 32), of_nat (r * 2 mod 2 ^ 32 div 2 ^ 8),
      of_nat (r * 2 mod 2 ^ 32 div 2 ^ 16), of_nat (r * 2 mod 2 ^ 32 div 2 ^ 24)] @
     [2, 0] @ [16, 0] @ [100, 97, 116, 97] @
     [of_nat ((2 * length s) mod 2 ^ 32), of_nat ((2 * length s) mod 2 ^ 32 div 2 ^ 8),
      of_nat ((2 * length s) mod 2 ^ 32 div 2 ^ 16), of_nat ((2 * length s) mod 2 ^ 32 div 2 ^ 24)] @
     concat (map (\<lambda>x. [ucast x, ucast (drop_bit 8 x)]) s))"
proof -
  let ?pre = "[82, 73, 70, 70,
     of_nat ((36 + 2 * length s) mod 2 ^ 32), of_nat ((36 + 2 * length s) mod 2 ^ 32 div 2 ^ 8),
      of_nat ((36 + 2 * length s) mod 2 ^ 32 div 2 ^ 16), of_nat ((36 + 2 * length s) mod 2 ^ 32 div 2 ^ 24),
     87, 65, 86, 69, 102, 109, 116, 32, 16, 0, 0, 0, 1, 0, 1, 0,
     of_nat (r mod 2 ^ 32), of_nat (r mod 2 ^ 32 div 2 ^ 8),
      of_nat (r mod 2 ^ 32 div 2 ^ 16), of_nat (r mod 2 ^ 32 div 2 ^ 24),
     of_nat (r * 2 mod 2 ^ 32), of_nat (r * 2 mod 2 ^ 32 div 2 ^ 8),
      of_nat (r * 2 mod 2 ^ 32 div 2 ^ 16), of_nat (r * 2 mod 2 ^ 32 div 2 ^ 24),
     2, 0, 16, 0, 100, 97, 116, 97,
     of_nat ((2 * length s) mod 2 ^ 32), of_nat ((2 * length s) mod 2 ^ 32 div 2 ^ 8),
      of_nat ((2 * length s) mod 2 ^ 32 div 2 ^ 16), of_nat ((2 * length s) mod 2 ^ 32 div 2 ^ 24)] :: byte list"
  have len: "length ?pre = 44 + 2 * 0" by simp
  have "pcmToWav s r = Inr (copy_samples (?pre @ replicate (2 * length s) 0) 0 s)"
    unfolding pcmToWav_def Let_def
    apply (simp add: setUint8_def setUint16_def setUint32_def and_then_def)
    apply (simp only: hdr44)
    apply (simp del: replicate_Suc list_update.simps add: list_update_code list_update_Cons_numeral)
    done
  also have "\<dots> = Inr (?pre @ concat (map (\<lambda>x. [ucast x, ucast (drop_bit 8 x)]) s))"
    by (simp only: copy_samples_append [OF len])
  finally show ?thesis by simp
qed

lemma split256: "(w::nat) mod 256 + 256 * (w div 256) = w"
  by simp

lemma le_value_u32:
  assumes "w < 2 ^ 32"
  shows "le_value [of_nat w, of_nat (w div 2 ^ 8), of_nat (w div 2 ^ 16), of_nat (w div 2 ^ 24) :: byte] = w"
proof -
  have a: "w div 16777216 mod 256 = w div 16777216"
    using assms by (simp add: less_mult_imp_div_less)
  have b': "w div 16777216 = w div 65536 div 256"
    by (simp add: div_mult2_eq [symmetric])
  have c': "w div 65536 = w div 256 div 256"
    by (simp add: div_mult2_eq [symmetric])
  have b: "w div 65536 mod 256 + 256 * (w div 16777216) = w div 65536"
    unfolding b' by (rule split256)
  have c: "w div 256 mod 256 + 256 * (w div 65536) = w div 256"
    unfolding c' by (rule split256)
  have "w mod 256 + 256 * (w div 256 mod 256 + 256 * (w div 65536 mod 256 + 256 * (w div 16777216 mod 256))) = w"
    by (simp only: a b c split256)
  then show ?thesis using a by (simp add: unat_of_nat)
qed

lemma le_value_mod32:
  "le_value [of_nat (v mod 2 ^ 32), of_nat (v mod 2 ^ 32 div 2 ^ 8),
             of_nat (v mod 2 ^ 32 div 2 ^ 16), of_nat (v mod 2 ^ 32 div 2 ^ 24) :: byte] = v mod 2 ^ 32"
  by (rule le_value_u32) simp

text \<open>
  C1. For every sequence of samples and every sample rate, \<open>pcmToWav\<close> returns (it never
  throws) a buffer of \<open>44 + 2 * length s\<close> bytes: ``RIFF'', then \<open>36 + 2 * length s\<close> as a
  little-endian 32-bit value, ``WAVE'', ``fmt '', 16 (32 bits), 1 and 1 (16 bits each),
  the sample rate and twice the sample rate (32 bits each), 2 and 16 (16 bits each),
  ``data'', \<open>2 * length s\<close> (32 bits), and from offset 44 the samples in order, low byte
  first. A 32-bit field holds its value modulo \<open>2 ^ 32\<close>. The two examples of the
  specification are the last two conjuncts.
\<close>

theorem pcmToWav_container:
  "(\<exists>buf. pcmToWav s r = Inr buf
      \<and> length buf = 44 + 2 * length s
      \<and> bytes_at buf 0 4 = char_codes ''RIFF''
      \<and> uint32_at buf 4 = (36 + 2 * length s) mod 2 ^ 32
      \<and> bytes_at buf 8 4 = char_codes ''WAVE''
      \<and> bytes_at buf 12 4 = char_codes ''fmt ''
      \<and> uint32_at buf 16 = 16
      \<and> uint16_at buf 20 = 1
      \<and> uint16_at buf 22 = 1
      \<and> uint32_at buf 24 = r mod 2 ^ 32
      \<and> uint32_at buf 28 = (r * 2) mod 2 ^ 32
      \<and> uint16_at buf 32 = 2
      \<and> uint16_at buf 34 = 16
      \<and> bytes_at buf 36 4 = char_codes ''data''
      \<and> uint32_at buf 40 = (2 * length s) mod 2 ^ 32
      \<and> int16s_le (drop 44 buf) = s)
   \<and> pcmToWav [] 24000 =
       Inr [0x52, 0x49, 0x46, 0x46, 36, 0, 0, 0, 0x57, 0x41, 0x56, 0x45,
            0x66, 0x6D, 0x74, 0x20, 16, 0, 0, 0, 1, 0, 1, 0,
            0xC0, 0x5D, 0, 0, 0x80, 0xBB, 0, 0, 2, 0, 16, 0,
            0x64, 0x61, 0x74, 0x61, 0, 0, 0, 0]
   \<and> (\<exists>buf. pcmToWav [0x1234, - 1] 16000 = Inr buf
      \<and> length buf = 48
      \<and> uint32_at buf 28 = 32000
      \<and> uint32_at buf 40 = 4
      \<and> bytes_at buf 44 2 = [0x34, 0x12]
      \<and> bytes_at buf 46 2 = [0xFF, 0xFF])"
proof (intro conjI)
  show "\<exists>buf. pcmToWav s r = Inr buf
      \<and> length buf = 44 + 2 * length s
      \<and> bytes_at buf 0 4 = char_codes ''RIFF''
      \<and> uint32_at buf 4 = (36 + 2 * length s) mod 2 ^ 32
      \<and> bytes_at buf 8 4 = char_codes ''WAVE''
      \<and> bytes_at buf 12 4 = char_codes ''fmt ''
      \<and> uint32_at buf 16 = 16
      \<and> uint16_at buf 20 = 1
      \<and> uint16_at buf 22 = 1
      \<and> uint32_at buf 24 = r mod 2 ^ 32
      \<and> uint32_at buf 28 = (r * 2) mod 2 ^ 32
      \<and> uint16_at buf 32 = 2
      \<and> uint16_at buf 34 = 16
      \<and> bytes_at buf 36 4 = char_codes ''data''
      \<and> uint32_at buf 40 = (2 * length s) mod 2 ^ 32
      \<and> int16s_le (drop 44 buf) = s"
    unfolding pcmToWav_layout [of s r]
    apply (rule exI, rule conjI, rule refl)
    apply (intro conjI)
                  apply (simp_all add: bytes_at_def char_codes_def uint32_at_def uint16_at_def
        le_value_mod32 [simplified] int16s_le_concat length_concat comp_def sum_list_triv)
    done
  show "pcmToWav [] 24000 =
       Inr [0x52, 0x49, 0x46, 0x46, 36, 0, 0, 0, 0x57, 0x41, 0x56, 0x45,
            0x66, 0x6D, 0x74, 0x20, 16, 0, 0, 0, 1, 0, 1, 0,
            0xC0, 0x5D, 0, 0, 0x80, 0xBB, 0, 0, 2, 0, 16, 0,
            0x64, 0x61, 0x74, 0x61, 0, 0, 0, 0]"
    unfolding pcmToWav_layout by simp
  show "\<exists>buf. pcmToWav [0x1234, - 1] 16000 = Inr buf
      \<and> length buf = 48
      \<and> uint32_at buf 28 = 32000
      \<and> uint32_at buf 40 = 4
      \<and> bytes_at buf 44 2 = [0x34, 0x12]
      \<and> bytes_at buf 46 2 = [0xFF, 0xFF]"
  proof -
    have m: "(- 1 :: 16 word) = 65535" by simp
    show ?thesis
      unfolding pcmToWav_layout m
      by (simp add: bytes_at_def uint32_at_def drop_bit_eq_div)
  qed
qed

section \<open>Properties of the retry loop\<close>

declare retry_loop.simps [simp del]

lemma retry_loop_done: "retry_loop cap req net maxRetries = []"
  by (simp add: retry_loop.simps [of cap req net maxRetries])

lemma retry_loop_success:
  assumes "retryCount < maxRetries" and "attempt cap (net 0) = Inr reply"
  shows "retry_loop cap req net retryCount = Fetch req # reply @ [SetIsLoading False]"
  using assms by (simp add: retry_loop.simps [of cap req net retryCount])

lemma retry_loop_backoff:
  assumes "retryCount + 1 < maxRetries" and "isl (attempt cap (net 0))"
  shows "retry_loop cap req net retryCount =
           [Fetch req, ConsoleError (log_message cap),
            Wait (baseDelay * 2 ^ (retryCount + 1)), SetIsLoading False]
           @ retry_loop cap req (\<lambda>i. net (Suc i)) (retryCount + 1)"
proof -
  obtain e where "attempt cap (net 0) = Inl e"
    using assms(2) by (cases "attempt cap (net 0)") auto
  then show ?thesis
    using assms(1) by (simp add: retry_loop.simps [of cap req net retryCount])
qed

lemma retry_loop_give_up:
  assumes "retryCount + 1 = maxRetries" and "isl (attempt cap (net 0))"
  shows "retry_loop cap req net retryCount =
           [Fetch req, ConsoleError (log_message cap),
            SetChatHistory (vision_turn (exhausted_message cap)),
            Speak (exhausted_message cap), SetIsLoading False]"
proof -
  obtain e where "attempt cap (net 0) = Inl e"
    using assms(2) by (cases "attempt cap (net 0)") auto
  moreover have "retry_loop cap req (\<lambda>i. net (Suc i)) (retryCount + 1) = []"
    using assms(1) retry_loop_done by simp
  moreover have "retryCount < maxRetries"
    using assms(1) by simp
  ultimately show ?thesis
    using assms(1) by (simp add: retry_loop.simps [of cap req net retryCount])
qed

lemma attempt_reply_shape:
  assumes "attempt cap r = Inr reply"
  shows "\<exists>t spoken. reply = [SetChatHistory t, Speak spoken]"
proof (cases cap)
  case Analyze
  with assms show ?thesis
    by (auto simp add: analyze_attempt_def split: fetch_result.splits option.splits if_splits)
next
  case Generate
  have "generate_parse res = Inr reply \<Longrightarrow> \<exists>t spoken. reply = [SetChatHistory t, Speak spoken]" for res
    by (cases res rule: generate_parse.cases) (auto simp add: generate_fallback_def split: if_splits)
  with Generate assms show ?thesis
    by (auto simp add: generate_attempt_def split: fetch_result.splits option.splits)
next
  case Conversation
  with assms show ?thesis
    by (auto simp add: converse_attempt_def split: fetch_result.splits option.splits if_splits)
next
  case Summarization
  with assms show ?thesis
    by (auto simp add: summarize_attempt_def split: fetch_result.splits option.splits if_splits)
qed

text \<open>
  C2. When the first two attempts of a capability call throw and the third reaches
  \<open>break\<close>, the loop makes exactly three network calls, waits 2000 ms before the
  second and 4000 ms before the third (\<open>baseDelay * 2 ^ (attempt + 1)\<close>), performs the
  effects of the successful third attempt (appending the parsed reply and speaking)
  and stops: nothing follows but the release of the loading flag.
\<close>

theorem retry_twice_then_success:
  assumes "isl (attempt cap (net 0))"
    and "isl (attempt cap (net 1))"
    and "attempt cap (net 2) = Inr reply"
  shows "retry_loop cap req net 0 =
           [Fetch req, ConsoleError (log_message cap), Wait 2000, SetIsLoading False,
            Fetch req, ConsoleError (log_message cap), Wait 4000, SetIsLoading False,
            Fetch req] @ reply @ [SetIsLoading False]
         \<and> length (filter is_fetch (retry_loop cap req net 0)) = 3
         \<and> waits (retry_loop cap req net 0) = [baseDelay * 2 ^ (0 + 1), baseDelay * 2 ^ (1 + 1)]
         \<and> (\<exists>t spoken. reply = [SetChatHistory t, Speak spoken])"
proof -
  let ?net1 = "\<lambda>i. net (Suc i)"
  let ?net2 = "\<lambda>i. ?net1 (Suc i)"
  have s0: "retry_loop cap req net 0 =
      [Fetch req, ConsoleError (log_message cap), Wait (baseDelay * 2 ^ (0 + 1)), SetIsLoading False]
      @ retry_loop cap req ?net1 (0 + 1)"
    using assms by (intro retry_loop_backoff) (simp_all add: maxRetries_def)
  have s1: "retry_loop cap req ?net1 (0 + 1) =
      [Fetch req, ConsoleError (log_message cap), Wait (baseDelay * 2 ^ (0 + 1 + 1)), SetIsLoading False]
      @ retry_loop cap req ?net2 (0 + 1 + 1)"
    using assms by (intro retry_loop_backoff) (simp_all add: maxRetries_def)
  have s2: "retry_loop cap req ?net2 (0 + 1 + 1) = Fetch req # reply @ [SetIsLoading False]"
    using assms by (intro retry_loop_success) (simp_all add: maxRetries_def numeral_2_eq_2)
  have trace: "retry_loop cap req net 0 =
           [Fetch req, ConsoleError (log_message cap), Wait 2000, SetIsLoading False,
            Fetch req, ConsoleError (log_message cap), Wait 4000, SetIsLoading False,
            Fetch req] @ reply @ [SetIsLoading False]"
    unfolding s0 s1 s2 by (simp add: baseDelay_def)
  obtain t spoken where shape: "reply = [SetChatHistory t, Speak spoken]"
    using attempt_reply_shape [OF assms(3)] by blast
  show ?thesis
    unfolding trace by (simp add: shape baseDelay_def)
qed

text \<open>The hypotheses of C2 hold at a conversation call that is rejected twice.\<close>

theorem retry_twice_then_success_witness:
  "isl (attempt Conversation
          ((\<lambda>i::nat. if i < 2 then Rejected
                else Resolved True (Some (JsonObject (Some ''hello'') None))) 0))
   \<and> isl (attempt Conversation
          ((\<lambda>i::nat. if i < 2 then Rejected
                else Resolved True (Some (JsonObject (Some ''hello'') None))) 1))
   \<and> attempt Conversation
          ((\<lambda>i::nat. if i < 2 then Rejected
                else Resolved True (Some (JsonObject (Some ''hello'') None))) 2)
       = Inr [SetChatHistory (vision_turn ''hello''), Speak ''hello'']
   \<and> retry_loop Conversation (Converse ''hi'')
          (\<lambda>i::nat. if i < 2 then Rejected
                else Resolved True (Some (JsonObject (Some ''hello'') None))) 0 =
           [Fetch (Converse ''hi''), ConsoleError ''API call failed:'', Wait 2000, SetIsLoading False,
            Fetch (Converse ''hi''), ConsoleError ''API call failed:'', Wait 4000, SetIsLoading False,
            Fetch (Converse ''hi''), SetChatHistory (vision_turn ''hello''), Speak ''hello'',
            SetIsLoading False]"
proof -
  let ?net = "\<lambda>i::nat. if i < 2 then Rejected
                else Resolved True (Some (JsonObject (Some ''hello'') None))"
  have h0: "isl (attempt Conversation (?net 0))"
    by (simp add: converse_attempt_def)
  have h1: "isl (attempt Conversation (?net 1))"
    by (simp add: converse_attempt_def)
  have h2: "attempt Conversation (?net 2) = Inr [SetChatHistory (vision_turn ''hello''), Speak ''hello'']"
    by (simp add: converse_attempt_def)
  show ?thesis
    using h0 h1 h2 retry_twice_then_success [OF h0 h1 h2, of "Converse ''hi''"]
    by simp
qed

lemma sendMessage_no_image_settles: "unhandled (sendMessage message None net) = None"
  by (simp add: sendMessage_def Let_def)

lemma sendMessage_readable_settles:
  "file_base64 img = Some b \<Longrightarrow> unhandled (sendMessage message (Some img) net) = None"
  by (simp add: sendMessage_def Let_def)

lemma handleSummarizeChat_settles: "unhandled (handleSummarizeChat chatHistory net) = None"
  by (simp add: handleSummarizeChat_def)

text \<open>
  C3. When every attempt of a capability call throws, the loop makes exactly three
  network calls and no more; the final Turn of the path is appended once and spoken
  once, after the third failure and not after each one; and the promise of the handler
  does not reject: the \<open>catch\<close> block takes every exception of the try block (for
  \<open>sendMessage\<close> with an attachment, provided the file could be read, which happens
  before the first attempt).
\<close>

theorem retry_exhausted_once:
  assumes "isl (attempt cap (net 0))"
    and "isl (attempt cap (net 1))"
    and "isl (attempt cap (net 2))"
  shows "retry_loop cap req net 0 =
           [Fetch req, ConsoleError (log_message cap), Wait 2000, SetIsLoading False,
            Fetch req, ConsoleError (log_message cap), Wait 4000, SetIsLoading False,
            Fetch req, ConsoleError (log_message cap),
            SetChatHistory (vision_turn (exhausted_message cap)),
            Speak (exhausted_message cap), SetIsLoading False]
         \<and> length (filter is_fetch (retry_loop cap req net 0)) = 3
         \<and> appended (retry_loop cap req net 0) = [vision_turn (exhausted_message cap)]
         \<and> filter is_speak (retry_loop cap req net 0) = [Speak (exhausted_message cap)]
         \<and> unhandled (handleSummarizeChat chatHistory net) = None
         \<and> unhandled (sendMessage message None net) = None
         \<and> (file_base64 img \<noteq> None \<longrightarrow> unhandled (sendMessage message (Some img) net) = None)"
proof -
  let ?net1 = "\<lambda>i. net (Suc i)"
  let ?net2 = "\<lambda>i. ?net1 (Suc i)"
  have s0: "retry_loop cap req net 0 =
      [Fetch req, ConsoleError (log_message cap), Wait (baseDelay * 2 ^ (0 + 1)), SetIsLoading False]
      @ retry_loop cap req ?net1 (0 + 1)"
    using assms by (intro retry_loop_backoff) (simp_all add: maxRetries_def)
  have s1: "retry_loop cap req ?net1 (0 + 1) =
      [Fetch req, ConsoleError (log_message cap), Wait (baseDelay * 2 ^ (0 + 1 + 1)), SetIsLoading False]
      @ retry_loop cap req ?net2 (0 + 1 + 1)"
    using assms by (intro retry_loop_backoff) (simp_all add: maxRetries_def)
  have s2: "retry_loop cap req ?net2 (0 + 1 + 1) =
      [Fetch req, ConsoleError (log_message cap),
       SetChatHistory (vision_turn (exhausted_message cap)),
       Speak (exhausted_message cap), SetIsLoading False]"
    using assms by (intro retry_loop_give_up) (simp_all add: maxRetries_def numeral_2_eq_2)
  have trace: "retry_loop cap req net 0 =
           [Fetch req, ConsoleError (log_message cap), Wait 2000, SetIsLoading False,
            Fetch req, ConsoleError (log_message cap), Wait 4000, SetIsLoading False,
            Fetch req, ConsoleError (log_message cap),
            SetChatHistory (vision_turn (exhausted_message cap)),
            Speak (exhausted_message cap), SetIsLoading False]"
    unfolding s0 s1 s2 by (simp add: baseDelay_def)
  have settled: "file_base64 img \<noteq> None \<longrightarrow> unhandled (sendMessage message (Some img) net) = None"
    using sendMessage_readable_settles by auto
  show ?thesis
    unfolding trace
    using settled sendMessage_no_image_settles handleSummarizeChat_settles by simp
qed

text \<open>
  The hypotheses of C3 hold at a conversation call whose three attempts are rejected.
\<close>

theorem retry_exhausted_once_witness:
  "isl (attempt Conversation ((\<lambda>i::nat. Rejected) 0))
   \<and> isl (attempt Conversation ((\<lambda>i::nat. Rejected) 1))
   \<and> isl (attempt Conversation ((\<lambda>i::nat. Rejected) 2))
   \<and> file_base64 \<lparr>file_type = ''image/png'', file_base64 = Some ''AAAA'',
                    dataUrl = ''data:image/png;base64,AAAA''\<rparr> \<noteq> None
   \<and> retry_loop Conversation (Converse ''hi'') (\<lambda>i. Rejected) 0 =
       [Fetch (Converse ''hi''), ConsoleError ''API call failed:'', Wait 2000, SetIsLoading False,
        Fetch (Converse ''hi''), ConsoleError ''API call failed:'', Wait 4000, SetIsLoading False,
        Fetch (Converse ''hi''), ConsoleError ''API call failed:'',
        SetChatHistory (vision_turn
          ''I'm sorry, I am currently unable to process your request. Please try again later.''),
        Speak ''I'm sorry, I am currently unable to process your request. Please try again later.'',
        SetIsLoading False]
   \<and> unhandled (sendMessage ''hi''
        (Some \<lparr>file_type = ''image/png'', file_base64 = Some ''AAAA'',
               dataUrl = ''data:image/png;base64,AAAA''\<rparr>) (\<lambda>i. Rejected)) = None"
proof -
  have h: "isl (attempt Conversation Rejected)"
    by (simp add: converse_attempt_def)
  show ?thesis
    using h
      retry_exhausted_once [where cap = Conversation and net = "\<lambda>i. Rejected"
        and req = "Converse ''hi''" and message = "''hi''"
        and img = "\<lparr>file_type = ''image/png'', file_base64 = Some ''AAAA'',
          dataUrl = ''data:image/png;base64,AAAA''\<rparr>"]
    by simp
qed

text \<open>
  C4. The claim that a response with a non-success status counts as a failed attempt
  on every path does not hold for the code: the image-analysis and image-generation
  try blocks never look at \<open>response.ok\<close>. On a status-500 response with a JSON error
  body they parse the body, find no text (no predictions), append the
  unexpected-format Turn and leave the loop after one attempt, without backoff. The
  conversation path (third conjunct) throws on the same response and retries, as the
  summarization path does.
\<close>

theorem image_paths_accept_error_status:
  "events (sendMessage ''what is this''
      (Some \<lparr>file_type = ''image/png'', file_base64 = Some ''AAAA'',
             dataUrl = ''data:image/png;base64,AAAA''\<rparr>)
      (\<lambda>i. Resolved False (Some (JsonObject None None)))) =
     [SuspendAudio,
      SetChatHistory \<lparr>role = ''user'', msg_text = ''what is this'',
                      imageUrl = Some ''data:image/png;base64,AAAA''\<rparr>,
      SetInputValue [], SetIsLoading True,
      SetChatHistory (vision_turn ''Analyzing the image provided...''),
      ReadFile, SetUploadedImage,
      Fetch (AnalyzeImage ''what is this'' ''image/png'' ''AAAA''),
      SetChatHistory (vision_turn
        ''Sorry, I couldn't analyze the image. The API returned an unexpected format.''),
      Speak ''Sorry, I couldn't analyze the image. The API returned an unexpected format.'',
      SetIsLoading False]
   \<and> retry_loop Generate (GenerateImage ''a red fox'')
        (\<lambda>i. Resolved False (Some (JsonObject None None))) 0 =
     [Fetch (GenerateImage ''a red fox''),
      SetChatHistory (vision_turn ''I'm sorry, I encountered an issue generating the image.''),
      Speak ''I'm sorry, I encountered an issue generating the image.'',
      SetIsLoading False]
   \<and> retry_loop Conversation (Converse ''hello'')
        (\<lambda>i. Resolved False (Some (JsonObject None None))) 0 =
     [Fetch (Converse ''hello''), ConsoleError ''API call failed:'', Wait 2000, SetIsLoading False,
      Fetch (Converse ''hello''), ConsoleError ''API call failed:'', Wait 4000, SetIsLoading False,
      Fetch (Converse ''hello''), ConsoleError ''API call failed:'',
      SetChatHistory (vision_turn
        ''I'm sorry, I am currently unable to process your request. Please try again later.''),
      Speak ''I'm sorry, I am currently unable to process your request. Please try again later.'',
      SetIsLoading False]"
  by (simp add: sendMessage_def Let_def retry_loop.simps maxRetries_def baseDelay_def
      analyze_attempt_def generate_attempt_def generate_fallback_def converse_attempt_def
      trim_def is_whitespace_def)

lemma releases_eq_fetches:
  "length (filter (\<lambda>e. e = SetIsLoading False) (retry_loop cap req net retryCount)) =
   length (filter is_fetch (retry_loop cap req net retryCount))"
proof (induction "maxRetries - retryCount" arbitrary: retryCount net)
  case 0
  then have "\<not> retryCount < maxRetries" by simp
  then show ?case
    by (simp add: retry_loop.simps [of cap req net retryCount])
next
  case (Suc k)
  then have running: "retryCount < maxRetries" by simp
  show ?case
  proof (cases "attempt cap (net 0)")
    case (Inr reply)
    obtain t spoken where "reply = [SetChatHistory t, Speak spoken]"
      using attempt_reply_shape [OF Inr] by blast
    then show ?thesis
      using retry_loop_success [where net = net, OF running Inr] by simp
  next
    case (Inl e)
    then have failed: "isl (attempt cap (net 0))" by simp
    show ?thesis
    proof (cases "retryCount + 1 < maxRetries")
      case True
      have "k = maxRetries - (retryCount + 1)"
        using Suc.hyps(2) by simp
      from Suc.hyps(1) [OF this, of "\<lambda>i. net (Suc i)"] show ?thesis
        using retry_loop_backoff [where net = net, OF True failed] by simp
    next
      case False
      then have "retryCount + 1 = maxRetries"
        using running by simp
      then show ?thesis
        using retry_loop_give_up [where net = net, OF _ failed] by simp
    qed
  qed
qed

text \<open>
  C7. The claim that the loading flag is released exactly once per dispatch does not
  hold for the code: the \<open>finally\<close> block stands inside the loop, so the flag is released
  once per attempt (as many times as there are network calls), the first time right
  after the first backoff wait, while the call is still being retried. With one
  rejected attempt followed by a success it is released twice; with three rejected
  attempts, three times. And when the attached file cannot be read, the handler stops
  before the loop and never releases it.
\<close>

theorem loading_flag_released_per_attempt:
  "length (filter (\<lambda>e. e = SetIsLoading False) (retry_loop cap req net retryCount)) =
     length (filter is_fetch (retry_loop cap req net retryCount))
   \<and> events (sendMessage ''hi'' None
        (\<lambda>i. if i < 1 then Rejected
              else Resolved True (Some (JsonObject (Some ''hello'') None)))) =
     [SuspendAudio,
      SetChatHistory \<lparr>role = ''user'', msg_text = ''hi'', imageUrl = None\<rparr>,
      SetInputValue [], SetIsLoading True,
      Fetch (Converse ''hi''), ConsoleError ''API call failed:'', Wait 2000, SetIsLoading False,
      Fetch (Converse ''hi''), SetChatHistory (vision_turn ''hello''), Speak ''hello'',
      SetIsLoading False]
   \<and> length (filter (\<lambda>e. e = SetIsLoading False)
        (events (sendMessage ''hi'' None
           (\<lambda>i. if i < 1 then Rejected
                 else Resolved True (Some (JsonObject (Some ''hello'') None)))))) = 2
   \<and> length (filter (\<lambda>e. e = SetIsLoading False)
        (events (handleSummarizeChat [vision_turn ''hello''] (\<lambda>i. Rejected)))) = 3
   \<and> sendMessage ''hi''
        (Some \<lparr>file_type = ''image/png'', file_base64 = None,
               dataUrl = ''data:image/png;base64,AAAA''\<rparr>) net =
       \<lparr>events =
          [SuspendAudio,
           SetChatHistory \<lparr>role = ''user'', msg_text = ''hi'',
                           imageUrl = Some ''data:image/png;base64,AAAA''\<rparr>,
           SetInputValue [], SetIsLoading True,
           SetChatHistory (vision_turn ''Analyzing the image provided...''), ReadFile],
        unhandled = Some FileReadError\<rparr>"
proof -
  have concrete: "events (sendMessage ''hi'' None
        (\<lambda>i. if i < 1 then Rejected
              else Resolved True (Some (JsonObject (Some ''hello'') None)))) =
     [SuspendAudio,
      SetChatHistory \<lparr>role = ''user'', msg_text = ''hi'', imageUrl = None\<rparr>,
      SetInputValue [], SetIsLoading True,
      Fetch (Converse ''hi''), ConsoleError ''API call failed:'', Wait 2000, SetIsLoading False,
      Fetch (Converse ''hi''), SetChatHistory (vision_turn ''hello''), Speak ''hello'',
      SetIsLoading False]"
    by (simp add: sendMessage_def Let_def retry_loop.simps maxRetries_def
      baseDelay_def converse_attempt_def trim_def is_whitespace_def
      startsWith_def toLowerCase_def imagePromptPrefix_def lower_char_def)
  have summarize: "length (filter (\<lambda>e. e = SetIsLoading False)
        (events (handleSummarizeChat [vision_turn ''hello''] (\<lambda>i. Rejected)))) = 3"
    by (simp add: handleSummarizeChat_def retry_loop.simps maxRetries_def summarize_attempt_def)
  have unreadable: "sendMessage ''hi''
        (Some \<lparr>file_type = ''image/png'', file_base64 = None,
               dataUrl = ''data:image/png;base64,AAAA''\<rparr>) net =
       \<lparr>events =
          [SuspendAudio,
           SetChatHistory \<lparr>role = ''user'', msg_text = ''hi'',
                           imageUrl = Some ''data:image/png;base64,AAAA''\<rparr>,
           SetInputValue [], SetIsLoading True,
           SetChatHistory (vision_turn ''Analyzing the image provided...''), ReadFile],
        unhandled = Some FileReadError\<rparr>"
    by (simp add: sendMessage_def Let_def)
  show ?thesis
    unfolding concrete
    using releases_eq_fetches [of cap req net retryCount] summarize unreadable by simp
qed

section \<open>The Turns of a dispatch\<close>

lemma appended_append: "appended (xs @ ys) = appended xs @ appended ys"
  by (induction xs rule: appended.induct) simp_all

lemma last_reply_append:
  "last_reply (xs @ [SetChatHistory t, Speak spoken, SetIsLoading b]) = Some (t, Some (Speak spoken))"
  by (induction xs rule: last_reply.induct) simp_all

lemma attempt_reply_spoken:
  assumes "attempt cap r = Inr reply"
  shows "\<exists>t spoken. reply = [SetChatHistory t, Speak spoken]
           \<and> (spoken = msg_text t
                \<or> cap = Summarization
                  \<and> spoken = ''Here is a summary of our conversation.''
                  \<and> (\<exists>summary. msg_text t =
                        ''Here is a summary of our conversation:'' @ [newline, newline] @ summary))"
proof (cases cap)
  case Analyze
  with assms show ?thesis
    by (auto simp add: analyze_attempt_def vision_turn_def
        split: fetch_result.splits option.splits if_splits)
next
  case Generate
  have "generate_parse res = Inr reply \<Longrightarrow>
        \<exists>t spoken. reply = [SetChatHistory t, Speak spoken] \<and> spoken = msg_text t" for res
    by (cases res rule: generate_parse.cases)
      (auto simp add: generate_fallback_def vision_turn_def split: if_splits)
  with Generate assms show ?thesis
    by (auto simp add: generate_attempt_def split: fetch_result.splits option.splits)
next
  case Conversation
  with assms show ?thesis
    by (auto simp add: converse_attempt_def vision_turn_def
        split: fetch_result.splits option.splits if_splits)
next
  case Summarization
  with assms show ?thesis
    by (auto simp add: summarize_attempt_def vision_turn_def
        split: fetch_result.splits option.splits if_splits)
qed

lemma retry_loop_shape:
  assumes "retryCount < maxRetries"
  shows "\<exists>pre t spoken.
           retry_loop cap req net retryCount =
             Fetch req # pre @ [SetChatHistory t, Speak spoken, SetIsLoading False]
           \<and> appended pre = []
           \<and> (spoken = msg_text t
                \<or> cap = Summarization
                  \<and> spoken = ''Here is a summary of our conversation.''
                  \<and> (\<exists>summary. msg_text t =
                        ''Here is a summary of our conversation:'' @ [newline, newline] @ summary))"
  using assms
proof (induction "maxRetries - retryCount" arbitrary: retryCount net)
  case 0
  then show ?case by simp
next
  case (Suc k)
  show ?case
  proof (cases "attempt cap (net 0)")
    case (Inr reply)
    obtain t spoken where r: "reply = [SetChatHistory t, Speak spoken]"
      and m: "spoken = msg_text t
                \<or> cap = Summarization
                  \<and> spoken = ''Here is a summary of our conversation.''
                  \<and> (\<exists>summary. msg_text t =
                        ''Here is a summary of our conversation:'' @ [newline, newline] @ summary)"
      using attempt_reply_spoken [OF Inr] by blast
    have "retry_loop cap req net retryCount =
            Fetch req # [] @ [SetChatHistory t, Speak spoken, SetIsLoading False]"
      using retry_loop_success [where net = net, OF Suc.prems Inr] r by simp
    with m show ?thesis by (metis appended.simps(1))
  next
    case (Inl e)
    then have failed: "isl (attempt cap (net 0))" by simp
    show ?thesis
    proof (cases "retryCount + 1 < maxRetries")
      case True
      have "k = maxRetries - (retryCount + 1)"
        using Suc.hyps(2) by simp
      from Suc.hyps(1) [OF this True, of "\<lambda>i. net (Suc i)"]
      obtain pre t spoken where
        rest: "retry_loop cap req (\<lambda>i. net (Suc i)) (retryCount + 1) =
                Fetch req # pre @ [SetChatHistory t, Speak spoken, SetIsLoading False]"
        and quiet: "appended pre = []"
        and m: "spoken = msg_text t
                \<or> cap = Summarization
                  \<and> spoken = ''Here is a summary of our conversation.''
                  \<and> (\<exists>summary. msg_text t =
                        ''Here is a summary of our conversation:'' @ [newline, newline] @ summary)"
        by blast
      let ?pre = "[ConsoleError (log_message cap), Wait (baseDelay * 2 ^ (retryCount + 1)),
                   SetIsLoading False, Fetch req] @ pre"
      have "retry_loop cap req net retryCount =
              Fetch req # ?pre @ [SetChatHistory t, Speak spoken, SetIsLoading False]"
        using retry_loop_backoff [where net = net, OF True failed] rest by simp
      moreover have "appended ?pre = []"
        using quiet by simp
      ultimately show ?thesis using m by blast
    next
      case False
      then have last: "retryCount + 1 = maxRetries"
        using Suc.prems by simp
      have "retry_loop cap req net retryCount =
              Fetch req # [ConsoleError (log_message cap)]
                @ [SetChatHistory (vision_turn (exhausted_message cap)),
                   Speak (exhausted_message cap), SetIsLoading False]"
        using retry_loop_give_up [where net = net, OF last failed] by simp
      moreover have "appended [ConsoleError (log_message cap)] = []"
        by simp
      moreover have "exhausted_message cap = msg_text (vision_turn (exhausted_message cap))"
        by (simp add: vision_turn_def)
      ultimately show ?thesis by blast
    qed
  qed
qed

lemma trim_empty_iff: "trim s = [] \<longleftrightarrow> (\<forall>c \<in> set s. is_whitespace c)"
proof -
  have stop: "(\<forall>c \<in> set (dropWhile is_whitespace s). is_whitespace c)
                \<longleftrightarrow> dropWhile is_whitespace s = []"
  proof
    assume all: "\<forall>c \<in> set (dropWhile is_whitespace s). is_whitespace c"
    show "dropWhile is_whitespace s = []"
    proof (rule ccontr)
      assume ne: "dropWhile is_whitespace s \<noteq> []"
      then have "\<not> is_whitespace (hd (dropWhile is_whitespace s))"
        by (rule hd_dropWhile)
      moreover have "hd (dropWhile is_whitespace s) \<in> set (dropWhile is_whitespace s)"
        using ne by simp
      ultimately show False using all by blast
    qed
  next
    assume "dropWhile is_whitespace s = []"
    then show "\<forall>c \<in> set (dropWhile is_whitespace s). is_whitespace c"
      by (simp only: list.set ball_empty)
  qed
  have "trim s = [] \<longleftrightarrow> (\<forall>c \<in> set (dropWhile is_whitespace s). is_whitespace c)"
    by (auto simp add: trim_def dropWhile_eq_Nil_conv dest: set_dropWhileD)
  also have "\<dots> \<longleftrightarrow> dropWhile is_whitespace s = []"
    by (rule stop)
  also have "\<dots> \<longleftrightarrow> (\<forall>c \<in> set s. is_whitespace c)"
    by (simp add: dropWhile_eq_Nil_conv)
  finally show ?thesis .
qed

lemma whitespace_not_g:
  assumes "is_whitespace c"
  shows "lower_char c \<noteq> CHR ''g''"
proof -
  have "of_char c \<in> set [9, 10, 11, 12, 13, 32, 160 :: nat]"
    using assms by (simp add: is_whitespace_def)
  then have low: "lower_char c = c"
    by (auto simp add: lower_char_def Let_def)
  have "of_char c \<noteq> (103 :: nat)"
    using \<open>of_char c \<in> set [9, 10, 11, 12, 13, 32, 160 :: nat]\<close> by auto
  then have "c \<noteq> CHR ''g''"
    by auto
  with low show ?thesis by simp
qed

lemma trigger_not_blank:
  assumes "startsWith (toLowerCase message) imagePromptPrefix"
  shows "trim message \<noteq> []"
proof (cases message)
  case Nil
  with assms show ?thesis
    by (simp add: startsWith_def toLowerCase_def imagePromptPrefix_def)
next
  case (Cons c cs)
  with assms have "lower_char c = CHR ''g''"
    by (simp add: startsWith_def toLowerCase_def imagePromptPrefix_def)
  then have "\<not> is_whitespace c"
    using whitespace_not_g by blast
  then show ?thesis
    using Cons by (auto simp add: trim_empty_iff)
qed

lemma retry_loop_one_reply [simp]: "\<exists>reply. appended (retry_loop cap req net 0) = [reply]"
proof -
  have "0 < maxRetries" by (simp add: maxRetries_def)
  from retry_loop_shape [OF this, of cap req net] show ?thesis
    by (auto simp add: appended_append)
qed

lemma retry_loop_fetch_first [simp]:
  "takeWhile (\<lambda>e. \<not> is_fetch e) (retry_loop cap req net 0) = []"
proof -
  have "0 < maxRetries" by (simp add: maxRetries_def)
  from retry_loop_shape [OF this, of cap req net] show ?thesis
    by auto
qed

text \<open>
  C5, as amended. On the image-analysis path (the file being readable) and on the
  image-generation path, a provisional Turn is appended after the user's Turn and
  before the first network call, and the conversation ends up with the three Turns
  user, placeholder, reply: the placeholder is kept. On the general-conversation path
  no placeholder is appended: only the user's Turn precedes the first network call,
  and the conversation gains the two Turns user, reply.
\<close>

theorem placeholder_on_image_paths:
  "(file_base64 img = Some base64Data \<longrightarrow>
      (\<exists>reply. appended (events (sendMessage message (Some img) net)) =
         [\<lparr>role = ''user'', msg_text = message, imageUrl = Some (dataUrl img)\<rparr>,
          vision_turn ''Analyzing the image provided...'', reply])
      \<and> appended (takeWhile (\<lambda>e. \<not> is_fetch e) (events (sendMessage message (Some img) net))) =
         [\<lparr>role = ''user'', msg_text = message, imageUrl = Some (dataUrl img)\<rparr>,
          vision_turn ''Analyzing the image provided...''])
   \<and> (startsWith (toLowerCase message) imagePromptPrefix \<longrightarrow>
      (\<exists>reply. appended (events (sendMessage message None net)) =
         [\<lparr>role = ''user'', msg_text = message, imageUrl = None\<rparr>,
          vision_turn (''Generating an image of: '' @ [dquote]
                         @ trim (drop (length imagePromptPrefix) message) @ [dquote] @ ''...''),
          reply])
      \<and> appended (takeWhile (\<lambda>e. \<not> is_fetch e) (events (sendMessage message None net))) =
         [\<lparr>role = ''user'', msg_text = message, imageUrl = None\<rparr>,
          vision_turn (''Generating an image of: '' @ [dquote]
                         @ trim (drop (length imagePromptPrefix) message) @ [dquote] @ ''...'')])
   \<and> (trim message \<noteq> [] \<and> \<not> startsWith (toLowerCase message) imagePromptPrefix \<longrightarrow>
      (\<exists>reply. appended (events (sendMessage message None net)) =
         [\<lparr>role = ''user'', msg_text = message, imageUrl = None\<rparr>, reply])
      \<and> appended (takeWhile (\<lambda>e. \<not> is_fetch e) (events (sendMessage message None net))) =
         [\<lparr>role = ''user'', msg_text = message, imageUrl = None\<rparr>])"
  using trigger_not_blank [of message]
  by (auto simp add: sendMessage_def Let_def)

text \<open>
  The three hypotheses of the amended C5, each at a concrete dispatch.
\<close>

theorem placeholder_on_image_paths_witness:
  "file_base64 \<lparr>file_type = ''image/png'', file_base64 = Some ''AAAA'',
                  dataUrl = ''data:image/png;base64,AAAA''\<rparr> = Some ''AAAA''
   \<and> (\<exists>reply. appended (events (sendMessage ''what is this''
          (Some \<lparr>file_type = ''image/png'', file_base64 = Some ''AAAA'',
                 dataUrl = ''data:image/png;base64,AAAA''\<rparr>) (\<lambda>i. Rejected))) =
        [\<lparr>role = ''user'', msg_text = ''what is this'',
          imageUrl = Some ''data:image/png;base64,AAAA''\<rparr>,
         vision_turn ''Analyzing the image provided...'', reply])
   \<and> startsWith (toLowerCase ''Generate an image of a red fox'') imagePromptPrefix
   \<and> (\<exists>reply. appended (events (sendMessage ''Generate an image of a red fox'' None
          (\<lambda>i. Rejected))) =
        [\<lparr>role = ''user'', msg_text = ''Generate an image of a red fox'', imageUrl = None\<rparr>,
         vision_turn (''Generating an image of: '' @ [dquote] @ ''a red fox'' @ [dquote] @ ''...''),
         reply])
   \<and> trim ''hi'' \<noteq> []
   \<and> \<not> startsWith (toLowerCase ''hi'') imagePromptPrefix
   \<and> (\<exists>reply. appended (events (sendMessage ''hi'' None (\<lambda>i. Rejected))) =
        [\<lparr>role = ''user'', msg_text = ''hi'', imageUrl = None\<rparr>, reply])"
proof -
  have a: "file_base64 \<lparr>file_type = ''image/png'', file_base64 = Some ''AAAA'',
                  dataUrl = ''data:image/png;base64,AAAA''\<rparr> = Some ''AAAA''"
    by simp
  have b: "startsWith (toLowerCase ''Generate an image of a red fox'') imagePromptPrefix"
    by (simp add: startsWith_def toLowerCase_def imagePromptPrefix_def lower_char_def
        char_of_def bit_Suc_0_iff)
  have c: "trim ''hi'' \<noteq> []"
    by (simp add: trim_def is_whitespace_def)
  have d: "\<not> startsWith (toLowerCase ''hi'') imagePromptPrefix"
    by (simp add: startsWith_def toLowerCase_def imagePromptPrefix_def lower_char_def)
  have e: "trim (drop (length imagePromptPrefix) ''Generate an image of a red fox'') = ''a red fox''"
    by (simp add: trim_def is_whitespace_def imagePromptPrefix_def)
  show ?thesis
    using a b c d e
      placeholder_on_image_paths [where message = "''what is this''"
        and img = "\<lparr>file_type = ''image/png'', file_base64 = Some ''AAAA'',
                  dataUrl = ''data:image/png;base64,AAAA''\<rparr>"
        and base64Data = "''AAAA''" and net = "\<lambda>i. Rejected"]
      placeholder_on_image_paths [where message = "''Generate an image of a red fox''"
        and net = "\<lambda>i. Rejected"]
      placeholder_on_image_paths [where message = "''hi''" and net = "\<lambda>i. Rejected"]
    by simp
qed

text \<open>
  C5 as stated fails: a plain conversation message whose first attempt succeeds
  appends the user's Turn, calls the network, and appends the reply; no provisional
  Turn comes before the network call.
\<close>

theorem conversation_has_no_placeholder:
  "events (sendMessage ''hi'' None
     (\<lambda>i. Resolved True (Some (JsonObject (Some ''hello'') None)))) =
     [SuspendAudio,
      SetChatHistory \<lparr>role = ''user'', msg_text = ''hi'', imageUrl = None\<rparr>,
      SetInputValue [], SetIsLoading True,
      Fetch (Converse ''hi''),
      SetChatHistory (vision_turn ''hello''), Speak ''hello'', SetIsLoading False]
   \<and> appended (takeWhile (\<lambda>e. \<not> is_fetch e)
        (events (sendMessage ''hi'' None
           (\<lambda>i. Resolved True (Some (JsonObject (Some ''hello'') None)))))) =
     [\<lparr>role = ''user'', msg_text = ''hi'', imageUrl = None\<rparr>]"
  by (simp add: sendMessage_def Let_def retry_loop.simps maxRetries_def
      converse_attempt_def trim_def is_whitespace_def
      startsWith_def toLowerCase_def imagePromptPrefix_def lower_char_def)

lemma last_reply_after:
  assumes "last_reply es = Some r"
  shows "last_reply (pre @ es) = Some r"
  using assms by (induction pre rule: last_reply.induct) simp_all

lemma retry_loop_last_reply:
  "\<exists>t spoken. last_reply (retry_loop cap req net 0) = Some (t, Some (Speak spoken))
     \<and> (spoken = msg_text t
          \<or> cap = Summarization
            \<and> spoken = ''Here is a summary of our conversation.''
            \<and> (\<exists>summary. msg_text t =
                  ''Here is a summary of our conversation:'' @ [newline, newline] @ summary))"
proof -
  have "0 < maxRetries" by (simp add: maxRetries_def)
  from retry_loop_shape [OF this, of cap req net]
  obtain pre t spoken where
    "retry_loop cap req net 0 = (Fetch req # pre) @ [SetChatHistory t, Speak spoken, SetIsLoading False]"
    and m: "spoken = msg_text t
          \<or> cap = Summarization
            \<and> spoken = ''Here is a summary of our conversation.''
            \<and> (\<exists>summary. msg_text t =
                  ''Here is a summary of our conversation:'' @ [newline, newline] @ summary)"
    by auto
  then have "last_reply (retry_loop cap req net 0) = Some (t, Some (Speak spoken))"
    by (simp only: last_reply_append)
  with m show ?thesis by blast
qed

lemma reply_spoken_loop:
  assumes "cap \<noteq> Summarization"
  shows "reply_spoken (retry_loop cap req net 0)"
proof -
  obtain t spoken where "last_reply (retry_loop cap req net 0) = Some (t, Some (Speak spoken))"
    and "spoken = msg_text t"
    using retry_loop_last_reply [of cap req net] assms by blast
  then show ?thesis
    by (simp add: reply_spoken_def)
qed

lemma reply_spoken_Cons:
  assumes "reply_spoken es"
  shows "reply_spoken (e # es)"
proof -
  obtain r where "last_reply es = Some r"
    using assms by (auto simp add: reply_spoken_def split: option.splits)
  then have "last_reply ([e] @ es) = Some r"
    by (rule last_reply_after)
  with \<open>last_reply es = Some r\<close> assms show ?thesis
    by (simp add: reply_spoken_def)
qed

lemma retry_loop_after_failures:
  assumes "retryCount + k < maxRetries"
    and "\<forall>i<k. isl (attempt cap (net i))"
    and "attempt cap (net k) = Inr reply"
  shows "\<exists>pre. retry_loop cap req net retryCount = pre @ Fetch req # reply @ [SetIsLoading False]"
  using assms
proof (induction k arbitrary: net retryCount)
  case 0
  then have "retry_loop cap req net retryCount = [] @ Fetch req # reply @ [SetIsLoading False]"
    using retry_loop_success [where net = net and retryCount = retryCount and cap = cap] by simp
  then show ?case by blast
next
  case (Suc k)
  have failed: "isl (attempt cap (net 0))"
    using Suc.prems(2) by simp
  have more: "retryCount + 1 < maxRetries"
    using Suc.prems(1) by simp
  have step: "retry_loop cap req net retryCount =
           [Fetch req, ConsoleError (log_message cap),
            Wait (baseDelay * 2 ^ (retryCount + 1)), SetIsLoading False]
           @ retry_loop cap req (\<lambda>i. net (Suc i)) (retryCount + 1)"
    by (rule retry_loop_backoff [where net = net, OF more failed])
  have "\<exists>pre. retry_loop cap req (\<lambda>i. net (Suc i)) (retryCount + 1) =
          pre @ Fetch req # reply @ [SetIsLoading False]"
    using Suc.prems by (intro Suc.IH) auto
  then obtain pre where "retry_loop cap req (\<lambda>i. net (Suc i)) (retryCount + 1) =
          pre @ Fetch req # reply @ [SetIsLoading False]"
    by blast
  with step have "retry_loop cap req net retryCount =
      ([Fetch req, ConsoleError (log_message cap),
            Wait (baseDelay * 2 ^ (retryCount + 1)), SetIsLoading False] @ pre)
      @ Fetch req # reply @ [SetIsLoading False]"
    by simp
  then show ?case by blast
qed

lemma retry_loop_reply_after_failures:
  assumes "k < 3"
    and "\<forall>i<k. isl (attempt cap (net i))"
    and "attempt cap (net k) = Inr [SetChatHistory t, Speak spoken]"
  shows "last_reply (e # retry_loop cap req net 0) = Some (t, Some (Speak spoken))"
proof -
  have "0 + k < maxRetries"
    using assms(1) by (simp add: maxRetries_def)
  from retry_loop_after_failures [OF this assms(2) assms(3), of req]
  obtain pre where "retry_loop cap req net 0 =
      pre @ Fetch req # [SetChatHistory t, Speak spoken] @ [SetIsLoading False]"
    by blast
  then have "e # retry_loop cap req net 0 =
      (e # pre @ [Fetch req]) @ [SetChatHistory t, Speak spoken, SetIsLoading False]"
    by simp
  then show ?thesis
    by (simp only: last_reply_append)
qed

lemma retry_loop_reply_exhausted:
  assumes "\<forall>i<3. isl (attempt cap (net i))"
  shows "last_reply (e # retry_loop cap req net 0) =
           Some (vision_turn (exhausted_message cap), Some (Speak (exhausted_message cap)))"
proof -
  let ?net1 = "\<lambda>i. net (Suc i)"
  let ?net2 = "\<lambda>i. ?net1 (Suc i)"
  have f0: "isl (attempt cap (net 0))" and f1: "isl (attempt cap (?net1 0))"
    and f2: "isl (attempt cap (?net2 0))"
    using assms by (simp_all add: numeral_3_eq_3)
  have s0: "retry_loop cap req net 0 =
      [Fetch req, ConsoleError (log_message cap), Wait (baseDelay * 2 ^ (0 + 1)), SetIsLoading False]
      @ retry_loop cap req ?net1 (0 + 1)"
    using f0 by (intro retry_loop_backoff) (simp_all add: maxRetries_def)
  have s1: "retry_loop cap req ?net1 (0 + 1) =
      [Fetch req, ConsoleError (log_message cap), Wait (baseDelay * 2 ^ (0 + 1 + 1)), SetIsLoading False]
      @ retry_loop cap req ?net2 (0 + 1 + 1)"
    using f1 by (intro retry_loop_backoff) (simp_all add: maxRetries_def)
  have s2: "retry_loop cap req ?net2 (0 + 1 + 1) =
      [Fetch req, ConsoleError (log_message cap)] @
      [SetChatHistory (vision_turn (exhausted_message cap)),
       Speak (exhausted_message cap), SetIsLoading False]"
    using f2 retry_loop_give_up [where net = ?net2 and retryCount = "0 + 1 + 1" and cap = cap and req = req]
    by (simp add: maxRetries_def)
  have "e # retry_loop cap req net 0 =
      (e # [Fetch req, ConsoleError (log_message cap), Wait (baseDelay * 2 ^ (0 + 1)), SetIsLoading False]
       @ [Fetch req, ConsoleError (log_message cap), Wait (baseDelay * 2 ^ (0 + 1 + 1)), SetIsLoading False]
       @ [Fetch req, ConsoleError (log_message cap)]) @
      [SetChatHistory (vision_turn (exhausted_message cap)),
       Speak (exhausted_message cap), SetIsLoading False]"
    unfolding s0 s1 s2 by simp
  then show ?thesis
    by (simp only: last_reply_append)
qed

text \<open>
  C6, as amended. On every outcome of the three dispatch paths (the message not being
  blank, or the attached file being readable), the reply Turn is followed at once by a
  call of the speech function with the Turn's own text, fallback texts included. On
  the summarization path the reply Turn is followed at once by a call of the speech
  function as well (third conjunct), and what is spoken is fixed by the outcome. When
  the first attempt that does not throw brings a summary, the Turn holds the heading
  ``Here is a summary of our conversation:'', an empty line and the summary, and the
  fixed sentence ``Here is a summary of our conversation.'' is spoken, not the text of
  the Turn (fourth conjunct). When that attempt brings no text, the fallback Turn is
  spoken with its own text (fifth), and so is the final Turn when all three attempts
  throw (sixth).
\<close>

theorem replies_are_spoken:
  "(trim message \<noteq> [] \<longrightarrow> reply_spoken (events (sendMessage message None net)))
   \<and> (file_base64 img = Some base64Data \<longrightarrow>
        reply_spoken (events (sendMessage message (Some img) net)))
   \<and> (chatHistory \<noteq> [] \<longrightarrow>
        (\<exists>t spoken.
           last_reply (events (handleSummarizeChat chatHistory net)) = Some (t, Some (Speak spoken))
           \<and> (spoken = msg_text t
                \<or> spoken = ''Here is a summary of our conversation.''
                  \<and> (\<exists>summary. msg_text t =
                        ''Here is a summary of our conversation:'' @ [newline, newline] @ summary))))
   \<and> (chatHistory \<noteq> [] \<and> k < 3 \<and> (\<forall>i<k. isl (attempt Summarization (net i)))
        \<and> net k = Resolved True (Some result) \<and> result_text result = Some summary
        \<and> summary \<noteq> [] \<longrightarrow>
        last_reply (events (handleSummarizeChat chatHistory net)) =
          Some (vision_turn (''Here is a summary of our conversation:'' @ [newline, newline] @ summary),
                Some (Speak ''Here is a summary of our conversation.'')))
   \<and> (chatHistory \<noteq> [] \<and> k < 3 \<and> (\<forall>i<k. isl (attempt Summarization (net i)))
        \<and> net k = Resolved True (Some result) \<and> \<not> truthy (result_text result) \<longrightarrow>
        last_reply (events (handleSummarizeChat chatHistory net)) =
          Some (vision_turn ''Sorry, I couldn't summarize the conversation.'',
                Some (Speak ''Sorry, I couldn't summarize the conversation.'')))
   \<and> (chatHistory \<noteq> [] \<and> (\<forall>i<3. isl (attempt Summarization (net i))) \<longrightarrow>
        last_reply (events (handleSummarizeChat chatHistory net)) =
          Some (vision_turn
                  ''I'm sorry, I am currently unable to summarize the conversation. Please try again later.'',
                Some (Speak
                  ''I'm sorry, I am currently unable to summarize the conversation. Please try again later.'')))"
proof (intro conjI impI)
  assume "trim message \<noteq> []"
  then show "reply_spoken (events (sendMessage message None net))"
    by (simp add: sendMessage_def Let_def reply_spoken_Cons reply_spoken_loop)
next
  assume "file_base64 img = Some base64Data"
  then show "reply_spoken (events (sendMessage message (Some img) net))"
    by (simp add: sendMessage_def Let_def reply_spoken_Cons reply_spoken_loop)
next
  assume "chatHistory \<noteq> []"
  moreover obtain t spoken where
    "last_reply (retry_loop Summarization (Summarize (summary_prompt chatHistory)) net 0) =
       Some (t, Some (Speak spoken))"
    and "spoken = msg_text t
          \<or> spoken = ''Here is a summary of our conversation.''
            \<and> (\<exists>summary. msg_text t =
                  ''Here is a summary of our conversation:'' @ [newline, newline] @ summary)"
    using retry_loop_last_reply [of Summarization _ net] by blast
  ultimately show "\<exists>t spoken.
           last_reply (events (handleSummarizeChat chatHistory net)) = Some (t, Some (Speak spoken))
           \<and> (spoken = msg_text t
                \<or> spoken = ''Here is a summary of our conversation.''
                  \<and> (\<exists>summary. msg_text t =
                        ''Here is a summary of our conversation:'' @ [newline, newline] @ summary))"
    by (auto simp add: handleSummarizeChat_def)
next
  assume a: "chatHistory \<noteq> [] \<and> k < 3 \<and> (\<forall>i<k. isl (attempt Summarization (net i)))
        \<and> net k = Resolved True (Some result) \<and> result_text result = Some summary
        \<and> summary \<noteq> []"
  then have "attempt Summarization (net k) =
      Inr [SetChatHistory (vision_turn
             (''Here is a summary of our conversation:'' @ [newline, newline] @ summary)),
           Speak ''Here is a summary of our conversation.'']"
    by (simp add: summarize_attempt_def)
  then have "last_reply (SetIsLoading True #
        retry_loop Summarization (Summarize (summary_prompt chatHistory)) net 0) =
          Some (vision_turn (''Here is a summary of our conversation:'' @ [newline, newline] @ summary),
                Some (Speak ''Here is a summary of our conversation.''))"
    using a by (intro retry_loop_reply_after_failures [where k = k and net = net]) auto
  then show "last_reply (events (handleSummarizeChat chatHistory net)) =
          Some (vision_turn (''Here is a summary of our conversation:'' @ [newline, newline] @ summary),
                Some (Speak ''Here is a summary of our conversation.''))"
    using a by (simp add: handleSummarizeChat_def)
next
  assume a: "chatHistory \<noteq> [] \<and> k < 3 \<and> (\<forall>i<k. isl (attempt Summarization (net i)))
        \<and> net k = Resolved True (Some result) \<and> \<not> truthy (result_text result)"
  then have "attempt Summarization (net k) =
      Inr [SetChatHistory (vision_turn ''Sorry, I couldn't summarize the conversation.''),
           Speak ''Sorry, I couldn't summarize the conversation.'']"
    by (simp add: summarize_attempt_def)
  then have "last_reply (SetIsLoading True #
        retry_loop Summarization (Summarize (summary_prompt chatHistory)) net 0) =
          Some (vision_turn ''Sorry, I couldn't summarize the conversation.'',
                Some (Speak ''Sorry, I couldn't summarize the conversation.''))"
    using a by (intro retry_loop_reply_after_failures [where k = k and net = net]) auto
  then show "last_reply (events (handleSummarizeChat chatHistory net)) =
          Some (vision_turn ''Sorry, I couldn't summarize the conversation.'',
                Some (Speak ''Sorry, I couldn't summarize the conversation.''))"
    using a by (simp add: handleSummarizeChat_def)
next
  assume a: "chatHistory \<noteq> [] \<and> (\<forall>i<3. isl (attempt Summarization (net i)))"
  then have "last_reply (SetIsLoading True #
        retry_loop Summarization (Summarize (summary_prompt chatHistory)) net 0) =
          Some (vision_turn (exhausted_message Summarization),
                Some (Speak (exhausted_message Summarization)))"
    by (intro retry_loop_reply_exhausted) auto
  then show "last_reply (events (handleSummarizeChat chatHistory net)) =
          Some (vision_turn
                  ''I'm sorry, I am currently unable to summarize the conversation. Please try again later.'',
                Some (Speak
                  ''I'm sorry, I am currently unable to summarize the conversation. Please try again later.''))"
    using a by (simp add: handleSummarizeChat_def)
qed

text \<open>
  The hypotheses of the amended C6 at concrete calls: two dispatches; a summary that
  arrives at the second attempt; a response without text; three rejected attempts.
\<close>

theorem replies_are_spoken_witness:
  "trim ''hi'' \<noteq> []
   \<and> reply_spoken (events (sendMessage ''hi'' None (\<lambda>i. Rejected)))
   \<and> file_base64 \<lparr>file_type = ''image/png'', file_base64 = Some ''AAAA'',
                    dataUrl = ''data:image/png;base64,AAAA''\<rparr> = Some ''AAAA''
   \<and> reply_spoken (events (sendMessage ''hi''
         (Some \<lparr>file_type = ''image/png'', file_base64 = Some ''AAAA'',
                dataUrl = ''data:image/png;base64,AAAA''\<rparr>) (\<lambda>i. Rejected)))
   \<and> [vision_turn ''hello''] \<noteq> []
   \<and> (1 :: nat) < 3
   \<and> isl (attempt Summarization
         ((\<lambda>i::nat. if i < 1 then Rejected
              else Resolved True (Some (JsonObject (Some ''A greeting.'') None))) 0))
   \<and> (\<lambda>i::nat. if i < 1 then Rejected
              else Resolved True (Some (JsonObject (Some ''A greeting.'') None))) 1 =
       Resolved True (Some (JsonObject (Some ''A greeting.'') None))
   \<and> result_text (JsonObject (Some ''A greeting.'') None) = Some ''A greeting.''
   \<and> ''A greeting.'' \<noteq> []
   \<and> last_reply (events (handleSummarizeChat [vision_turn ''hello'']
         (\<lambda>i. if i < 1 then Rejected
              else Resolved True (Some (JsonObject (Some ''A greeting.'') None))))) =
       Some (vision_turn
               (''Here is a summary of our conversation:'' @ [newline, newline] @ ''A greeting.''),
             Some (Speak ''Here is a summary of our conversation.''))
   \<and> \<not> truthy (result_text (JsonObject None None))
   \<and> last_reply (events (handleSummarizeChat [vision_turn ''hello'']
         (\<lambda>i. Resolved True (Some (JsonObject None None))))) =
       Some (vision_turn ''Sorry, I couldn't summarize the conversation.'',
             Some (Speak ''Sorry, I couldn't summarize the conversation.''))
   \<and> isl (attempt Summarization Rejected)
   \<and> last_reply (events (handleSummarizeChat [vision_turn ''hello''] (\<lambda>i. Rejected))) =
       Some (vision_turn
               ''I'm sorry, I am currently unable to summarize the conversation. Please try again later.'',
             Some (Speak
               ''I'm sorry, I am currently unable to summarize the conversation. Please try again later.''))"
proof -
  have a: "trim ''hi'' \<noteq> []"
    by (simp add: trim_def is_whitespace_def)
  have b: "file_base64 \<lparr>file_type = ''image/png'', file_base64 = Some ''AAAA'',
                    dataUrl = ''data:image/png;base64,AAAA''\<rparr> = Some ''AAAA''"
    by simp
  have f: "isl (attempt Summarization Rejected)"
    by (simp add: summarize_attempt_def)
  note dispatch_and_exhaustion =
    replies_are_spoken [where message = "''hi''" and net = "\<lambda>i. Rejected"
        and img = "\<lparr>file_type = ''image/png'', file_base64 = Some ''AAAA'',
                    dataUrl = ''data:image/png;base64,AAAA''\<rparr>"
        and base64Data = "''AAAA''" and chatHistory = "[vision_turn ''hello'']"]
  note success =
    replies_are_spoken [where chatHistory = "[vision_turn ''hello'']" and k = 1
        and net = "\<lambda>i. if i < 1 then Rejected
              else Resolved True (Some (JsonObject (Some ''A greeting.'') None))"
        and result = "JsonObject (Some ''A greeting.'') None" and summary = "''A greeting.''"]
  note malformed =
    replies_are_spoken [where chatHistory = "[vision_turn ''hello'']" and k = 0
        and net = "\<lambda>i. Resolved True (Some (JsonObject None None))"
        and result = "JsonObject None None"]
  show ?thesis
    using a b f dispatch_and_exhaustion success malformed
    by simp
qed

text \<open>
  C6 as stated fails on the success reply of the summarization path: the Turn holds
  the heading and the summary, the speech function gets the fixed sentence only.
\<close>

theorem summary_reply_spoken_differently:
  "events (handleSummarizeChat [vision_turn ''hello'']
      (\<lambda>i. Resolved True (Some (JsonObject (Some ''A greeting.'') None)))) =
     [SetIsLoading True,
      Fetch (Summarize (summary_prompt [vision_turn ''hello''])),
      SetChatHistory (vision_turn
        (''Here is a summary of our conversation:'' @ [newline, newline] @ ''A greeting.'')),
      Speak ''Here is a summary of our conversation.'',
      SetIsLoading False]
   \<and> \<not> reply_spoken (events (handleSummarizeChat [vision_turn ''hello'']
      (\<lambda>i. Resolved True (Some (JsonObject (Some ''A greeting.'') None)))))"
  by (simp add: handleSummarizeChat_def retry_loop.simps maxRetries_def summarize_attempt_def
      reply_spoken_def vision_turn_def)

section \<open>Speech synthesis\<close>

text \<open>
  What the speech function does with a failure inside its \<open>try\<close> block, for every
  response, every \<open>atob\<close> and every player: a rejected \<open>fetch\<close>, a body that is not
  JSON, an audio MIME type without \<open>rate=\<close> and digits, a payload that \<open>atob\<close> refuses
  and a payload of odd length end in the \<open>catch\<close> block, which logs; a response
  without audio data, without MIME type or with a MIME type that is not audio ends in
  the \<open>else\<close> branch, which logs. The promise of the function is never rejected, and
  nothing is played.
\<close>

lemma speech_failures_logged:
  "fetchAndPlayGeminiTTS atob to_double play spoken Rejected =
     \<lparr>events = [Fetch (Synthesize spoken), ConsoleError ''Error calling Gemini TTS API:''],
      unhandled = None, dropped = None\<rparr>
   \<and> fetchAndPlayGeminiTTS atob to_double play spoken (Resolved ok None) =
     \<lparr>events = [Fetch (Synthesize spoken), ConsoleError ''Error calling Gemini TTS API:''],
      unhandled = None, dropped = None\<rparr>
   \<and> (\<not> (truthy audioData \<and> truthy mimeType \<and> startsWith (the mimeType) ''audio/'') \<longrightarrow>
        fetchAndPlayGeminiTTS atob to_double play spoken
          (Resolved ok (Some (TtsResult audioData mimeType))) =
        \<lparr>events = [Fetch (Synthesize spoken),
                   ConsoleError ''Gemini TTS API response missing audio data.''],
         unhandled = None, dropped = None\<rparr>)
   \<and> (truthy audioData \<and> truthy mimeType \<and> startsWith (the mimeType) ''audio/''
        \<and> (match_rate (the mimeType) = None
             \<or> isl (atob (the audioData))
             \<or> (\<exists>binaryString. atob (the audioData) = Inr binaryString
                   \<and> odd (length binaryString))) \<longrightarrow>
        fetchAndPlayGeminiTTS atob to_double play spoken
          (Resolved ok (Some (TtsResult audioData mimeType))) =
        \<lparr>events = [Fetch (Synthesize spoken), ConsoleError ''Error calling Gemini TTS API:''],
         unhandled = None, dropped = None\<rparr>)"
  by (auto simp add: fetchAndPlayGeminiTTS_def tts_try_def and_then_def base64ToArrayBuffer_def
      new_Int16Array_def char_codes_def split: option.splits sum.splits)

text \<open>
  In the remaining case the container is encoded and handed to the player, and the
  outcome of the dropped promise is whatever the player decides.
\<close>

lemma speech_played:
  assumes "truthy audioData" and "truthy mimeType" and "startsWith (the mimeType) ''audio/''"
    and "match_rate (the mimeType) = Some digits"
    and "atob (the audioData) = Inr binaryString"
    and "even (length binaryString)"
  shows "\<exists>wavBlob.
      pcmToWav (int16s_le (char_codes binaryString)) (parseInt to_double digits) = Inr wavBlob
      \<and> fetchAndPlayGeminiTTS atob to_double play spoken
          (Resolved ok (Some (TtsResult audioData mimeType))) =
        \<lparr>events = [Fetch (Synthesize spoken), Play wavBlob],
         unhandled = None, dropped = play wavBlob\<rparr>"
proof -
  obtain wavBlob where
    "pcmToWav (int16s_le (char_codes binaryString)) (parseInt to_double digits) = Inr wavBlob"
    using pcmToWav_layout by blast
  with assms show ?thesis
    by (simp add: fetchAndPlayGeminiTTS_def tts_try_def and_then_def base64ToArrayBuffer_def
      new_Int16Array_def char_codes_def)
qed

text \<open>
  C8. The claim that the speech function never lets an unhandled rejection surface and
  that all its failures are logged and swallowed does not hold for the code.
  \<open>audio.play()\<close> stands inside the \<open>try\<close> block, but the promise it returns is not
  awaited: for a well-formed response (base64 payload of four bytes, MIME type
  ``audio/L16;codec=pcm;rate=24000'') in a browser that does not allow the playback,
  the container is handed to the player, the promise of \<open>audio.play()\<close> is rejected
  after the \<open>try\<close> block has been left, the \<open>catch\<close> block does not run, nothing is
  logged, and the rejection stays unhandled. The promise of the function itself is
  fulfilled.
\<close>

theorem playback_rejection_not_caught:
  "fetchAndPlayGeminiTTS (\<lambda>base64. Inr ''abcd'') (\<lambda>n. n) (\<lambda>wavBlob. Some NotAllowedError)
      ''Hello''
      (Resolved True (Some (TtsResult (Some ''YWJjZA=='')
                                      (Some ''audio/L16;codec=pcm;rate=24000'')))) =
     \<lparr>events =
        [Fetch (Synthesize ''Hello''),
         Play [0x52, 0x49, 0x46, 0x46, 40, 0, 0, 0, 0x57, 0x41, 0x56, 0x45,
               0x66, 0x6D, 0x74, 0x20, 16, 0, 0, 0, 1, 0, 1, 0,
               0xC0, 0x5D, 0, 0, 0x80, 0xBB, 0, 0, 2, 0, 16, 0,
               0x64, 0x61, 0x74, 0x61, 4, 0, 0, 0, 0x61, 0x62, 0x63, 0x64]],
      unhandled = None,
      dropped = Some NotAllowedError\<rparr>"
proof -
  have rate: "match_rate ''audio/L16;codec=pcm;rate=24000'' = Some ''24000''"
    by (simp add: startsWith_def is_digit_def)
  have n: "parseInt (\<lambda>n. n) ''24000'' = 24000"
    by (simp add: parseInt_def)
  have samples: "int16s_le (char_codes ''abcd'') = [0x6261, 0x6463]"
    by (simp add: char_codes_def word_cat_eq push_bit_eq_mult)
  have wav: "pcmToWav [0x6261, 0x6463] 24000 =
      Inr [0x52, 0x49, 0x46, 0x46, 40, 0, 0, 0, 0x57, 0x41, 0x56, 0x45,
               0x66, 0x6D, 0x74, 0x20, 16, 0, 0, 0, 1, 0, 1, 0,
               0xC0, 0x5D, 0, 0, 0x80, 0xBB, 0, 0, 2, 0, 16, 0,
               0x64, 0x61, 0x74, 0x61, 4, 0, 0, 0, 0x61, 0x62, 0x63, 0x64]"
    unfolding pcmToWav_layout by (simp add: drop_bit_eq_div)
  have len: "length (char_codes ''abcd'') mod 2 = 0"
    by (simp add: char_codes_def)
  have audio: "startsWith ''audio/L16;codec=pcm;rate=24000'' ''audio/''"
    by (simp add: startsWith_def)
  show ?thesis
    by (simp del: match_rate.simps
      add: fetchAndPlayGeminiTTS_def tts_try_def and_then_def base64ToArrayBuffer_def
        new_Int16Array_def rate n samples wav len audio)
qed

section \<open>Searching the conversation\<close>





section \<open>The user's Turn\<close>

text \<open>
  C10. When the message has a character that is not white space, or an image is
  attached, the first state change of \<open>sendMessage\<close> appends the user's Turn: role
  ``user'', the message as text, the data URL of the attachment as image reference
  when there is one. Only the suspension of the audio context comes before it; every
  other Turn and every network call is in the rest of the trace.
\<close>

theorem user_turn_first:
  assumes "(\<exists>c \<in> set message. \<not> is_whitespace c) \<or> uploadedImage \<noteq> None"
  shows "\<exists>rest. events (sendMessage message uploadedImage net) =
           SuspendAudio
           # SetChatHistory \<lparr>role = ''user'', msg_text = message,
                             imageUrl = map_option dataUrl uploadedImage\<rparr>
           # rest"
proof -
  have "\<not> (trim message = [] \<and> uploadedImage = None)"
    using assms by (auto simp add: trim_empty_iff)
  then show ?thesis
    by (auto simp add: sendMessage_def Let_def split: option.splits)
qed

text \<open>
  The hypothesis of C10 holds for the message ``hi'' without attachment.
\<close>

theorem user_turn_first_witness:
  "((\<exists>c \<in> set ''hi''. \<not> is_whitespace c) \<or> (None :: upload option) \<noteq> None)
   \<and> (\<exists>rest. events (sendMessage ''hi'' None (\<lambda>i. Rejected)) =
           SuspendAudio
           # SetChatHistory \<lparr>role = ''user'', msg_text = ''hi'', imageUrl = None\<rparr>
           # rest)"
proof -
  have h: "(\<exists>c \<in> set ''hi''. \<not> is_whitespace c) \<or> (None :: upload option) \<noteq> None"
    by (simp add: is_whitespace_def)
  show ?thesis
    using h user_turn_first [OF h, of "\<lambda>i. Rejected"] by simp
qed

end
